theory Spec2Isabelle
  imports Main "HOL-Library.Char_ord" "HOL-Library.List_Lexorder"
begin

section \<open>The record store\<close>

text \<open>
  The deletion pipeline of \<^verbatim>\<open>transaction_deletion_record.py\<close> works on the shared
  record store through the framework's query calls. The store is modelled as it is
  addressed by the code: a table of rows per record type (DocType) name, a row being a
  finite map from column names to values. A column that is absent from a row is SQL
  \<^verbatim>\<open>NULL\<close>. The order of a table's rows is the order in which an unordered
  \<^verbatim>\<open>select\<close> returns them.
\<close>

datatype val = VStr string | VInt int

type_synonym row = "string \<rightharpoonup> val"

type_synonym db = "string \<Rightarrow> row list"

text \<open>
  The filters the code passes to \<^verbatim>\<open>frappe.get_all\<close>, \<^verbatim>\<open>frappe.db.count\<close> and
  \<^verbatim>\<open>frappe.db.delete\<close>: equality with a value, membership in a list
  (\<^verbatim>\<open>["in", names]\<close>) and its negation (\<^verbatim>\<open>["not in", names]\<close>). A \<^verbatim>\<open>NULL\<close>
  column satisfies neither an equality nor an \<^verbatim>\<open>in\<close>; the framework wraps the column of
  a \<^verbatim>\<open>not in\<close> in \<^verbatim>\<open>ifnull(col, '')\<close>, so a \<^verbatim>\<open>NULL\<close> column is compared as the
  empty string.
\<close>

datatype cond = Eq val | In "val list" | NotIn "val list"

fun holds :: "row \<Rightarrow> string \<times> cond \<Rightarrow> bool" where
  "holds r (f, Eq v) = (r f = Some v)"
| "holds r (f, In vs) = (case r f of None \<Rightarrow> False | Some v \<Rightarrow> v \<in> set vs)"
| "holds r (f, NotIn vs) = (case r f of None \<Rightarrow> VStr [] \<notin> set vs | Some v \<Rightarrow> v \<notin> set vs)"

definition matches :: "(string \<times> cond) list \<Rightarrow> row \<Rightarrow> bool" where
  "matches fs r = list_all (holds r) fs"

definition get_all :: "db \<Rightarrow> string \<Rightarrow> (string \<times> cond) list \<Rightarrow> row list" where
  "get_all d doctype fs = filter (matches fs) (d doctype)"

definition get_all_limit :: "db \<Rightarrow> string \<Rightarrow> (string \<times> cond) list \<Rightarrow> nat \<Rightarrow> row list" where
  "get_all_limit d doctype fs limit = take limit (get_all d doctype fs)"

text \<open>\<^verbatim>\<open>pluck=col\<close> and \<^verbatim>\<open>[r.col for r in rows]\<close>: the column's values. A \<^verbatim>\<open>NULL\<close> is
  left out: the code places these lists in \<^verbatim>\<open>in\<close> filters, which no \<^verbatim>\<open>NULL\<close>
  satisfies, and the column \<^verbatim>\<open>name\<close>, the key of every table, is never \<^verbatim>\<open>NULL\<close>.\<close>

definition pluck :: "string \<Rightarrow> row list \<Rightarrow> val list" where
  "pluck col rows = List.map_filter (\<lambda>r. r col) rows"

fun str_of :: "val \<Rightarrow> string option" where
  "str_of (VStr s) = Some s"
| "str_of (VInt i) = None"

definition pluck_str :: "string \<Rightarrow> row list \<Rightarrow> string list" where
  "pluck_str col rows = List.map_filter str_of (pluck col rows)"

definition db_count :: "db \<Rightarrow> string \<Rightarrow> (string \<times> cond) list \<Rightarrow> nat" where
  "db_count d doctype fs = length (get_all d doctype fs)"

definition db_delete :: "db \<Rightarrow> string \<Rightarrow> (string \<times> cond) list \<Rightarrow> db" where
  "db_delete d doctype fs = d(doctype := filter (\<lambda>r. \<not> matches fs r) (d doctype))"

text \<open>\<^verbatim>\<open>frappe.db.get_value(doctype, name, col)\<close>: the column of the first row of that
  name, \<^verbatim>\<open>None\<close> when there is no such row or the column is \<^verbatim>\<open>NULL\<close>.\<close>

definition get_value :: "db \<Rightarrow> string \<Rightarrow> string \<Rightarrow> string \<Rightarrow> val option" where
  "get_value d doctype nm col =
     (case get_all d doctype [(''name'', Eq (VStr nm))] of [] \<Rightarrow> None | r # _ \<Rightarrow> r col)"

section \<open>The deletion job\<close>

text \<open>
  \<^verbatim>\<open>TransactionDeletionRecordItem\<close> is the row type of both child tables of the job:
  \<^verbatim>\<open>doctypes\<close> (the inventory) and \<^verbatim>\<open>doctypes_to_be_ignored\<close>. The source's column
  \<^verbatim>\<open>done\<close> is the field \<open>done_flag\<close> here. A \<^verbatim>\<open>Check\<close> column is a boolean.
\<close>

record transaction_deletion_record_item =
  doctype_name :: string
  docfield_name :: string
  no_of_docs :: int
  done_flag :: bool

record transaction_deletion_record =
  name :: string
  company :: string
  status :: string
  clear_notifications :: bool
  delete_bin_data :: bool
  delete_leads_and_addresses :: bool
  delete_transactions :: bool
  initialize_doctypes_table :: bool
  reset_company_default_values :: bool
  doctypes :: "transaction_deletion_record_item list"
  doctypes_to_be_ignored :: "transaction_deletion_record_item list"

text \<open>\<^verbatim>\<open>self.doctype\<close> and the \<^verbatim>\<open>self.batch_size = 5000\<close> of \<^verbatim>\<open>__init__\<close>.\<close>

definition self_doctype :: string where
  "self_doctype = ''Transaction Deletion Record''"

definition batch_size :: nat where
  "batch_size = 5000"

text \<open>The exceptions of the code: \<^verbatim>\<open>frappe.PermissionError\<close> (the spec's
  \<^verbatim>\<open>PermissionDenied\<close>), the \<^verbatim>\<open>frappe.ValidationError\<close> of \<^verbatim>\<open>frappe.throw\<close> (the spec's
  \<^verbatim>\<open>InvalidConfiguration\<close>), the \<^verbatim>\<open>ValueError\<close> of a failed tuple unpacking, the
  \<^verbatim>\<open>frappe.DoesNotExistError\<close> of \<^verbatim>\<open>frappe.get_doc\<close>, the \<^verbatim>\<open>AttributeError\<close>
  of a method the job does not have, and the \<^verbatim>\<open>ProgrammingError\<close> that
  \<^verbatim>\<open>frappe.db.sql\<close> passes on when the database cannot parse a statement.\<close>

datatype error =
  PermissionError | ValidationError | ValueError | DoesNotExistError | AttributeError |
  ProgrammingError

text \<open>
  What the code reads from outside the store: the list the configuration hook
  \<^verbatim>\<open>company_data_to_be_ignored\<close> returns, whether \<^verbatim>\<open>frappe.only_for("System Manager")\<close>
  lets the session's user pass, the value of \<^verbatim>\<open>frappe.utils.cint\<close> on the strings
  that are not plain decimal numerals (see \<open>cint\<close> below), and what the database makes
  of the statements of \<^verbatim>\<open>delete_lead_addresses\<close> when the text pasted into them is
  not a list of plain literals (see \<open>lead_cleanup\<close> below).
\<close>

record env =
  hooks :: "string list"
  system_manager :: bool
  cint_rest :: "string \<Rightarrow> int"
  unread_sql :: "string \<Rightarrow> db \<Rightarrow> error + (row list \<times> row list \<times> row list)"

subsection \<open>The ignore-list resolver\<close>

definition builtin_doctypes_to_be_ignored :: "string list" where
  "builtin_doctypes_to_be_ignored =
    [''Account'', ''Cost Center'', ''Warehouse'', ''Budget'', ''Party Account'', ''Employee'',
     ''Sales Taxes and Charges Template'', ''Purchase Taxes and Charges Template'',
     ''POS Profile'', ''BOM'', ''Company'', ''Bank Account'', ''Item Tax Template'',
     ''Mode of Payment'', ''Mode of Payment Account'', ''Item Default'', ''Customer'',
     ''Supplier'']"

definition get_doctypes_to_be_ignored :: "env \<Rightarrow> string list" where
  "get_doctypes_to_be_ignored e = builtin_doctypes_to_be_ignored @ hooks e"

subsection \<open>Validation and the document hooks\<close>

definition only_for_system_manager :: "env \<Rightarrow> error + unit" where
  "only_for_system_manager e = (if system_manager e then Inr () else Inl PermissionError)"

fun check_ignored_entries ::
  "string list \<Rightarrow> transaction_deletion_record_item list \<Rightarrow> error + unit" where
  "check_ignored_entries allowed [] = Inr ()"
| "check_ignored_entries allowed (x # xs) =
     (if doctype_name x \<notin> set allowed then Inl ValidationError
      else check_ignored_entries allowed xs)"

definition validate_doctypes_to_be_ignored ::
  "env \<Rightarrow> transaction_deletion_record \<Rightarrow> error + unit" where
  "validate_doctypes_to_be_ignored e self =
     check_ignored_entries (get_doctypes_to_be_ignored e) (doctypes_to_be_ignored self)"

definition validate :: "env \<Rightarrow> transaction_deletion_record \<Rightarrow> error + unit" where
  "validate e self =
     (case only_for_system_manager e of
        Inl err \<Rightarrow> Inl err
      | Inr u \<Rightarrow> validate_doctypes_to_be_ignored e self)"

definition ignored_item :: "string \<Rightarrow> transaction_deletion_record_item" where
  "ignored_item d = \<lparr>doctype_name = d, docfield_name = [], no_of_docs = 0, done_flag = False\<rparr>"

definition populate_doctypes_to_be_ignored_table ::
  "env \<Rightarrow> transaction_deletion_record \<Rightarrow> transaction_deletion_record" where
  "populate_doctypes_to_be_ignored_table e self =
     self\<lparr>doctypes_to_be_ignored :=
       doctypes_to_be_ignored self @ map ignored_item (get_doctypes_to_be_ignored e)\<rparr>"

definition before_submit ::
  "env \<Rightarrow> transaction_deletion_record \<Rightarrow> transaction_deletion_record" where
  "before_submit e self =
     (if doctypes_to_be_ignored self = [] then populate_doctypes_to_be_ignored_table e self
      else self)"

definition reset_task_flags :: "transaction_deletion_record \<Rightarrow> transaction_deletion_record" where
  "reset_task_flags self =
     self\<lparr>clear_notifications := False, delete_bin_data := False,
          delete_leads_and_addresses := False, delete_transactions := False,
          reset_company_default_values := False\<rparr>"

definition before_save :: "transaction_deletion_record \<Rightarrow> transaction_deletion_record" where
  "before_save self = reset_task_flags (self\<lparr>status := []\<rparr>)"

definition on_submit :: "transaction_deletion_record \<Rightarrow> transaction_deletion_record" where
  "on_submit self = self\<lparr>status := ''Queued''\<rparr>"

definition on_cancel :: "transaction_deletion_record \<Rightarrow> transaction_deletion_record" where
  "on_cancel self = self\<lparr>status := ''Cancelled''\<rparr>"

section \<open>The system state and the pre-cleanup stages\<close>

text \<open>
  A unit of work runs on the persisted job, the record store, the task queue and the
  process-wide cache of notification counts. \<^verbatim>\<open>self.db_set\<close> writes a column of the job
  to the store and to \<^verbatim>\<open>self\<close> alike, and a continuation is run on the job as loaded
  from the store (\<^verbatim>\<open>run_doc_method\<close>), so the state holds the job once. A stage returns
  the new state, or the exception it raises: the unit of work is then rolled back, and
  the continuations it enqueued (\<^verbatim>\<open>enqueue_after_commit=True\<close>) are dropped with it.
\<close>

record system =
  doc :: transaction_deletion_record
  db :: db
  queue :: "(string \<times> string \<times> string) list"
  notification_counts :: "(string \<times> int) list"

definition chain_callback :: "string \<Rightarrow> system \<Rightarrow> system" where
  "chain_callback method s = s\<lparr>queue := queue s @ [(self_doctype, name (doc s), method)]\<rparr>"

definition sql_update :: "db \<Rightarrow> string \<Rightarrow> (string \<times> cond) list \<Rightarrow> (row \<Rightarrow> row) \<Rightarrow> db" where
  "sql_update d doctype fs f = d(doctype := map (\<lambda>r. if matches fs r then f r else r) (d doctype))"

definition delete_bins :: "system \<Rightarrow> error + system" where
  "delete_bins s =
     Inr (chain_callback ''delete_lead_addresses''
       (if \<not> delete_bin_data (doc s) then
          s\<lparr>db := db_delete (db s) ''Bin''
                  [(''warehouse'', In (pluck ''name''
                      (get_all (db s) ''Warehouse'' [(''company'', Eq (VStr (company (doc s))))])))],
            doc := (doc s)\<lparr>delete_bin_data := True\<rparr>\<rparr>
        else s))"

text \<open>The subquery of the address deletion: the parents of the \<^verbatim>\<open>Dynamic Link\<close> rows
  that share their parent with a row of another \<^verbatim>\<open>link_doctype\<close>. A comparison with
  \<^verbatim>\<open>NULL\<close> joins nothing.\<close>

definition joined :: "row \<Rightarrow> row \<Rightarrow> bool" where
  "joined dl1 dl2 =
     (case (dl1 ''parent'', dl2 ''parent'', dl1 ''link_doctype'', dl2 ''link_doctype'') of
        (Some p1, Some p2, Some t1, Some t2) \<Rightarrow> p1 = p2 \<and> t1 \<noteq> t2
      | _ \<Rightarrow> False)"

definition multi_linked_parents :: "db \<Rightarrow> val list" where
  "multi_linked_parents d =
     pluck ''parent''
       (filter (\<lambda>dl1. list_ex (joined dl1) (d ''Dynamic Link'')) (d ''Dynamic Link''))"

text \<open>
  Line 123 writes every lead name between two quote characters, \<^verbatim>\<open>"'%s'" % name\<close>, with
  no escaping, and the statements receive the names joined by commas. \<open>py_str\<close> is the
  text \<^verbatim>\<open>%s\<close> gives for a column: a text as it is, an integer in decimal, \<^verbatim>\<open>None\<close>
  as that word.
\<close>

definition quote :: char where
  "quote = CHR 0x27"

definition backslash :: char where
  "backslash = CHR 0x5C"

definition is_digit :: "char \<Rightarrow> bool" where
  "is_digit c = (c \<in> set ''0123456789'')"

fun decimal :: "nat \<Rightarrow> string" where
  "decimal n = (if n < 10 then [''0123456789'' ! n]
                else decimal (n div 10) @ [''0123456789'' ! (n mod 10)])"

declare decimal.simps [simp del]

fun py_str :: "val option \<Rightarrow> string" where
  "py_str None = ''None''"
| "py_str (Some (VStr s)) = s"
| "py_str (Some (VInt i)) = (if i < 0 then CHR ''-'' # decimal (nat (- i)) else decimal (nat i))"

definition quoted :: "string \<Rightarrow> string" where
  "quoted s = quote # s @ [quote]"

fun str_join :: "string \<Rightarrow> string list \<Rightarrow> string" where
  "str_join sep [] = []"
| "str_join sep [x] = x"
| "str_join sep (x # y # ys) = x @ sep @ str_join sep (y # ys)"

text \<open>
  What the database reads in the pasted text is decided by the text alone. Between two
  quote characters, a run of characters other than the quote and the backslash is a
  literal that stands for itself; the opening parenthesis is set apart as well, since
  the framework rewrites one function name followed by it wherever it stands in the text of
  a statement. \<open>read_sql_list\<close> reads the text from the left, as the database does:

  \<^item> \<open>Literals\<close>: the text is a list of such literals with a comma between them, and an
    \<^verbatim>\<open>in\<close> over it compares with these texts;
  \<^item> \<open>Malformed\<close>: after such literals, a closed literal is followed at once by a digit.
    No statement has a number or a name there, so the database refuses the statement
    whatever follows, and \<^verbatim>\<open>frappe.db.sql\<close> raises;
  \<^item> \<open>Unread\<close>: any other text (an escape, a doubled quote, a literal that is not closed,
    an operator or a comment after a literal). What the database makes of it is not
    decided here.
\<close>

datatype sql_list = Literals "string list" | Malformed | Unread

datatype position = Start | Inside | After

fun read_sql_list :: "position \<Rightarrow> string list \<Rightarrow> string \<Rightarrow> string \<Rightarrow> sql_list" where
  "read_sql_list Start lits cur [] = Unread"
| "read_sql_list Inside lits cur [] = Unread"
| "read_sql_list After lits cur [] = Literals lits"
| "read_sql_list Start lits cur (c # cs) =
     (if c = quote then read_sql_list Inside lits [] cs else Unread)"
| "read_sql_list Inside lits cur (c # cs) =
     (if c = quote then read_sql_list After (lits @ [cur]) [] cs
      else if c = backslash \<or> c = CHR ''('' then Unread
      else read_sql_list Inside lits (cur @ [c]) cs)"
| "read_sql_list After lits cur (c # cs) =
     (if c = CHR '','' then read_sql_list Start lits [] cs
      else if is_digit c then Malformed
      else Unread)"

text \<open>The four statements of \<^verbatim>\<open>delete_lead_addresses\<close> (lines 126 to 156) when the
  pasted text is the list of literals \<open>leads\<close>. The test \<^verbatim>\<open>if addresses\<close> is on the
  list as selected, one element per row.\<close>

definition lead_statements :: "db \<Rightarrow> val list \<Rightarrow> db" where
  "lead_statements d leads =
     (let links = get_all d ''Dynamic Link'' [(''link_name'', In leads)];
          addresses = pluck ''parent'' links;
          d2 =
            (if links \<noteq> [] then
               db_delete
                 (db_delete d ''Address''
                    [(''name'', In addresses),
                     (''name'', NotIn (multi_linked_parents d))])
                 ''Dynamic Link''
                 [(''link_doctype'', Eq (VStr ''Lead'')),
                  (''parenttype'', Eq (VStr ''Address'')),
                  (''link_name'', In leads)]
             else d)
      in sql_update d2 ''Customer'' [(''lead_name'', In leads)]
           (\<lambda>r. r(''lead_name'' := None)))"

text \<open>Lines 122 to 156 on the store. The test \<^verbatim>\<open>if leads\<close> is on the list as selected,
  one element per row. The statements write the tables \<^verbatim>\<open>Address\<close>,
  \<^verbatim>\<open>Dynamic Link\<close> and \<^verbatim>\<open>Customer\<close> and no other, whatever the pasted text: for a
  text that is \<open>Unread\<close>, \<open>unread_sql\<close> gives the exception raised or these three tables
  after the statements.\<close>

definition lead_cleanup :: "env \<Rightarrow> db \<Rightarrow> string \<Rightarrow> error + db" where
  "lead_cleanup e d self_company =
     (let lead_rows = get_all d ''Lead'' [(''company'', Eq (VStr self_company))];
          leads = map (\<lambda>row. quoted (py_str (row ''name''))) lead_rows
      in if leads \<noteq> [] then
           (case read_sql_list Start [] [] (str_join '','' leads) of
              Literals names \<Rightarrow> Inr (lead_statements d (map VStr names))
            | Malformed \<Rightarrow> Inl ProgrammingError
            | Unread \<Rightarrow>
                (case unread_sql e (str_join '','' leads) d of
                   Inl err \<Rightarrow> Inl err
                 | Inr (addresses, links, customers) \<Rightarrow>
                     Inr (d(''Address'' := addresses, ''Dynamic Link'' := links,
                            ''Customer'' := customers))))
         else Inr d)"

definition delete_lead_addresses :: "env \<Rightarrow> system \<Rightarrow> error + system" where
  "delete_lead_addresses e s =
     (if \<not> delete_leads_and_addresses (doc s) then
        (case lead_cleanup e (db s) (company (doc s)) of
           Inl err \<Rightarrow> Inl err
         | Inr d \<Rightarrow>
             Inr (chain_callback ''reset_company_values''
               (s\<lparr>db := d, doc := (doc s)\<lparr>delete_leads_and_addresses := True\<rparr>\<rparr>)))
      else Inr (chain_callback ''reset_company_values'' s))"

text \<open>\<^verbatim>\<open>frappe.get_doc\<close> raises when the company has no record. \<^verbatim>\<open>company_obj.save\<close>
  is taken as the write of the two columns; the hooks of the \<^verbatim>\<open>Company\<close> type that a
  save runs are outside this file.\<close>

definition reset_company_values :: "system \<Rightarrow> error + system" where
  "reset_company_values s =
     (if \<not> reset_company_default_values (doc s) then
        (if get_all (db s) ''Company'' [(''name'', Eq (VStr (company (doc s))))] = []
         then Inl DoesNotExistError
         else Inr (chain_callback ''delete_notifications''
                (s\<lparr>db := sql_update (db s) ''Company'' [(''name'', Eq (VStr (company (doc s))))]
                          (\<lambda>r. r(''total_monthly_sales'' \<mapsto> VInt 0,
                                ''sales_monthly_history'' := None)),
                   doc := (doc s)\<lparr>reset_company_default_values := True\<rparr>\<rparr>)))
      else Inr (chain_callback ''delete_notifications'' s))"

definition delete_notifications :: "system \<Rightarrow> error + system" where
  "delete_notifications s =
     Inr (chain_callback ''initialize_doctypes_to_be_deleted_table''
       (if \<not> clear_notifications (doc s) then
          s\<lparr>notification_counts := [], doc := (doc s)\<lparr>clear_notifications := True\<rparr>\<rparr>
        else s))"

section \<open>The entity-reference scanner\<close>

text \<open>The \<^verbatim>\<open>singles\<close> of \<^verbatim>\<open>get_doctypes_to_be_ignored_list\<close>: the names of the types
  whose \<^verbatim>\<open>issingle\<close> is set.\<close>

definition singles :: "db \<Rightarrow> string list" where
  "singles d = pluck_str ''name'' (get_all d ''DocType'' [(''issingle'', Eq (VInt 1))])"

definition get_doctypes_to_be_ignored_list :: "system \<Rightarrow> string list" where
  "get_doctypes_to_be_ignored_list s =
     singles (db s) @ map doctype_name (doctypes_to_be_ignored (doc s))"

text \<open>The \<^verbatim>\<open>DocField\<close> rows of the query, as the pairs \<^verbatim>\<open>(parent, fieldname)\<close> the
  callers read from them.\<close>

definition parent_fieldname :: "row \<Rightarrow> (string \<times> string) option" where
  "parent_fieldname r =
     (case (r ''parent'', r ''fieldname'') of
        (Some (VStr p), Some (VStr f)) \<Rightarrow> Some (p, f)
      | _ \<Rightarrow> None)"

definition get_doctypes_with_company_field :: "system \<Rightarrow> string list \<Rightarrow> (string \<times> string) list" where
  "get_doctypes_with_company_field s doctypes_to_be_ignored_list =
     List.map_filter parent_fieldname
       (get_all (db s) ''DocField''
          [(''fieldtype'', Eq (VStr ''Link'')), (''options'', Eq (VStr ''Company'')),
           (''parent'', NotIn (map VStr doctypes_to_be_ignored_list))])"

definition get_all_child_doctypes :: "system \<Rightarrow> string list" where
  "get_all_child_doctypes s =
     pluck_str ''name'' (get_all (db s) ''DocType'' [(''istable'', Eq (VInt 1))])"

definition get_number_of_docs_linked_with_specified_company ::
  "system \<Rightarrow> string \<Rightarrow> string \<Rightarrow> nat" where
  "get_number_of_docs_linked_with_specified_company s doctype company_fieldname =
     db_count (db s) doctype [(company_fieldname, Eq (VStr (company (doc s))))]"

text \<open>\<^verbatim>\<open>self.save\<close> on the submitted job (\<^verbatim>\<open>ignore_validate_update_after_submit\<close>) writes
  the job with its new row; the framework runs neither \<^verbatim>\<open>validate\<close> nor
  \<^verbatim>\<open>before_save\<close> when a submitted document is updated.\<close>

definition populate_doctypes_table ::
  "string list \<Rightarrow> string \<Rightarrow> string \<Rightarrow> int \<Rightarrow> system \<Rightarrow> system" where
  "populate_doctypes_table tables doctype fieldname n s =
     (if doctype \<notin> set tables then
        s\<lparr>doc := (doc s)\<lparr>doctypes := doctypes (doc s) @
             [\<lparr>doctype_name = doctype, docfield_name = fieldname, no_of_docs = n,
               done_flag = False\<rparr>]\<rparr>\<rparr>
      else s)"

definition initialize_docfield :: "string list \<Rightarrow> system \<Rightarrow> string \<times> string \<Rightarrow> system" where
  "initialize_docfield tables s docfield =
     (if fst docfield \<noteq> self_doctype then
        (if get_number_of_docs_linked_with_specified_company s (fst docfield) (snd docfield) > 0
         then populate_doctypes_table tables (fst docfield) (snd docfield) 0 s
         else s)
      else s)"

definition initialize_doctypes_to_be_deleted_table :: "system \<Rightarrow> error + system" where
  "initialize_doctypes_to_be_deleted_table s =
     Inr (chain_callback ''delete_company_transactions''
       (if \<not> initialize_doctypes_table (doc s) then
          (let doctypes_to_be_ignored_list = get_doctypes_to_be_ignored_list s;
               docfields = get_doctypes_with_company_field s doctypes_to_be_ignored_list;
               tables = get_all_child_doctypes s;
               s' = foldl (initialize_docfield tables) s docfields
           in s'\<lparr>doc := (doc s')\<lparr>initialize_doctypes_table := True\<rparr>\<rparr>)
        else s))"

section \<open>The dependent-artifact cleaner\<close>

text \<open>\<^verbatim>\<open>frappe.utils.create_batch\<close>: the list cut into consecutive slices of \<open>n\<close>
  elements. The code only calls it with \<open>batch_size\<close>; Python's \<^verbatim>\<open>range\<close> raises on a
  step of zero, where this function returns no slice.\<close>

function create_batch :: "'a list \<Rightarrow> nat \<Rightarrow> 'a list list" where
  "create_batch xs n =
     (if xs = [] \<or> n = 0 then [] else take n xs # create_batch (drop n xs) n)"
  by pat_completeness auto
termination
  by (relation "measure (\<lambda>(xs, n). length xs)") auto

declare create_batch.simps [simp del]

definition delete_version_log :: "string \<Rightarrow> val list \<Rightarrow> db \<Rightarrow> db" where
  "delete_version_log doctype docnames d =
     db_delete d ''Version'' [(''ref_doctype'', Eq (VStr doctype)), (''docname'', In docnames)]"

text \<open>\<^verbatim>\<open>frappe.delete_doc(doctype, batch, ignore_permissions=True)\<close> removes the records
  of the given names.\<close>

definition delete_doc :: "string \<Rightarrow> db \<Rightarrow> val list \<Rightarrow> db" where
  "delete_doc doctype d names = db_delete d doctype [(''name'', In names)]"

definition delete_communications :: "string \<Rightarrow> val list \<Rightarrow> db \<Rightarrow> db" where
  "delete_communications doctype reference_doc_names d =
     (let communication_names = pluck ''name''
            (get_all d ''Communication''
               [(''reference_doctype'', Eq (VStr doctype)),
                (''reference_name'', In reference_doc_names)])
      in if communication_names = [] then d
         else foldl (delete_doc ''Communication'') d
                (create_batch communication_names batch_size))"

definition delete_comments :: "string \<Rightarrow> val list \<Rightarrow> db \<Rightarrow> db" where
  "delete_comments doctype reference_doc_names d =
     (let comment_names = pluck ''name''
            (get_all d ''Comment''
               [(''reference_doctype'', Eq (VStr doctype)),
                (''reference_name'', In reference_doc_names)])
      in if comment_names = [] then d
         else foldl (delete_doc ''Comment'') d (create_batch comment_names batch_size))"

definition unlink_files :: "db \<Rightarrow> val list \<Rightarrow> db" where
  "unlink_files d batch =
     sql_update d ''File'' [(''name'', In batch)]
       (\<lambda>r. r(''attached_to_doctype'' := None, ''attached_to_name'' := None))"

definition unlink_attachments :: "string \<Rightarrow> val list \<Rightarrow> db \<Rightarrow> db" where
  "unlink_attachments doctype reference_doc_names d =
     (let file_names = pluck ''name''
            (get_all d ''File''
               [(''attached_to_doctype'', Eq (VStr doctype)),
                (''attached_to_name'', In reference_doc_names)])
      in if file_names = [] then d
         else foldl unlink_files d (create_batch file_names batch_size))"

definition delete_child_rows :: "val list \<Rightarrow> db \<Rightarrow> string \<Rightarrow> db" where
  "delete_child_rows reference_doc_names d table =
     db_delete d table [(''parent'', In reference_doc_names)]"

definition delete_child_tables :: "string \<Rightarrow> val list \<Rightarrow> db \<Rightarrow> db" where
  "delete_child_tables doctype reference_doc_names d =
     (let child_tables = pluck_str ''options''
            (get_all d ''DocField''
               [(''fieldtype'', Eq (VStr ''Table'')), (''parent'', Eq (VStr doctype))])
      in foldl (delete_child_rows reference_doc_names) d child_tables)"

definition delete_docs_linked_with_specified_company ::
  "string \<Rightarrow> string \<Rightarrow> string \<Rightarrow> db \<Rightarrow> db" where
  "delete_docs_linked_with_specified_company self_company doctype company_fieldname d =
     db_delete d doctype [(company_fieldname, Eq (VStr self_company))]"

section \<open>The naming-series reconciler\<close>

text \<open>\<^verbatim>\<open>s.rsplit(c, 1)\<close> when it gives two parts: the text before the last \<open>c\<close> and
  the text after it; \<open>None\<close> when \<open>c\<close> does not occur (one part, so the unpacking into
  \<^verbatim>\<open>prefix, hashes\<close> raises).\<close>

definition rsplit1 :: "char \<Rightarrow> string \<Rightarrow> (string \<times> string) option" where
  "rsplit1 c s =
     (let r = rev s; after = takeWhile (\<lambda>x. x \<noteq> c) r; rest = dropWhile (\<lambda>x. x \<noteq> c) r
      in if rest = [] then None else Some (rev (tl rest), rev after))"

text \<open>SQL \<^verbatim>\<open>LIKE\<close>: \<^verbatim>\<open>%\<close> stands for any text and \<^verbatim>\<open>_\<close> for any one character.
  Characters compare by their codes (a binary collation), and the escape character of
  the dialect is not modelled.\<close>

fun like :: "string \<Rightarrow> string \<Rightarrow> bool" where
  "like [] [] = True"
| "like [] (c # cs) = False"
| "like (p # ps) [] = (p = CHR ''%'' \<and> like ps [])"
| "like (p # ps) (c # cs) =
     (if p = CHR ''%'' then like ps (c # cs) \<or> like (p # ps) cs
      else (p = CHR ''_'' \<or> p = c) \<and> like ps cs)"

text \<open>\<^verbatim>\<open>select max(name)\<close>: the greatest name, \<^verbatim>\<open>NULL\<close> over no rows.\<close>

definition sql_max :: "string list \<Rightarrow> string option" where
  "sql_max xs = (case xs of [] \<Rightarrow> None | x # ys \<Rightarrow> Some (fold max ys x))"

text \<open>Python's \<^verbatim>\<open>s.replace(old, new)\<close>: every occurrence of \<open>old\<close>, found from the
  left and not overlapping, becomes \<open>new\<close>; an empty \<open>old\<close> occurs before every
  character and at the end.\<close>

function str_replace :: "string \<Rightarrow> string \<Rightarrow> string \<Rightarrow> string" where
  "str_replace s old new =
     (if old = [] then new @ concat (map (\<lambda>c. c # new) s)
      else if s = [] then []
      else if take (length old) s = old then new @ str_replace (drop (length old) s) old new
      else hd s # str_replace (tl s) old new)"
  by pat_completeness auto
termination
  by (relation "measure (\<lambda>(s, old, new). length s)") auto

declare str_replace.simps [simp del]

text \<open>
  \<^verbatim>\<open>frappe.utils.cint(s)\<close> is \<^verbatim>\<open>int(float(s))\<close>, and 0 when that raises. On a
  nonempty string of the digits 0 to 9, \<^verbatim>\<open>float\<close> gives the double nearest to the
  number written (ties to even), an infinity from \<open>2^1024 - 2^970\<close> on, where \<^verbatim>\<open>int\<close>
  raises. \<open>float_of_nat\<close> is that double as a natural number. \<^verbatim>\<open>float('')\<close> raises.
  Every other string (signs, blanks, fractions, exponents, text) is left to
  \<open>cint_rest\<close>.
\<close>

definition digit_value :: "char \<Rightarrow> nat" where
  "digit_value c = of_char c - 48"

definition nat_of_digits :: "string \<Rightarrow> nat" where
  "nat_of_digits ds = foldl (\<lambda>n c. 10 * n + digit_value c) 0 ds"

fun bit_length :: "nat \<Rightarrow> nat" where
  "bit_length n = (if n = 0 then 0 else Suc (bit_length (n div 2)))"

declare bit_length.simps [simp del]

definition float_of_nat :: "nat \<Rightarrow> nat option" where
  "float_of_nat n =
     (if n < 2 ^ 53 then Some n
      else
        (let e = bit_length n - 53;
             q = n div 2 ^ e;
             r = n mod 2 ^ e;
             h = 2 ^ (e - 1);
             q' = (if h < r \<or> (r = h \<and> odd q) then q + 1 else q);
             v = q' * 2 ^ e
         in if 2 ^ 1024 \<le> v then None else Some v))"

definition cint :: "env \<Rightarrow> string \<Rightarrow> int" where
  "cint e s =
     (if s = [] then 0
      else if list_all is_digit s then
        (case float_of_nat (nat_of_digits s) of Some v \<Rightarrow> int v | None \<Rightarrow> 0)
      else cint_rest e s)"

definition update_naming_series :: "env \<Rightarrow> string \<Rightarrow> string \<Rightarrow> db \<Rightarrow> error + db" where
  "update_naming_series e naming_series doctype d =
     (case (if CHR ''.'' \<in> set naming_series then rsplit1 CHR ''.'' naming_series
            else rsplit1 CHR ''{'' naming_series) of
        None \<Rightarrow> Inl ValueError
      | Some (pre, hashes) \<Rightarrow>
          (let last =
                 (case sql_max (filter (like (pre @ ''%'')) (pluck_str ''name'' (d doctype))) of
                    None \<Rightarrow> 0
                  | Some m \<Rightarrow> if m = [] then 0 else cint e (str_replace m pre []))
           in Inr (sql_update d ''Series'' [(''name'', Eq (VStr pre))]
                     (\<lambda>r. r(''current'' \<mapsto> VInt last)))))"

text \<open>Lines 210 to 214 of \<^verbatim>\<open>delete_company_transactions\<close>: the reconciler runs for a
  type whose \<^verbatim>\<open>autoname\<close> is set and contains \<^verbatim>\<open>#\<close>.\<close>

definition reconcile_naming_series :: "env \<Rightarrow> string \<Rightarrow> db \<Rightarrow> error + db" where
  "reconcile_naming_series e doctype d =
     (case get_value d ''DocType'' doctype ''autoname'' of
        Some (VStr naming_series) \<Rightarrow>
          (if naming_series \<noteq> [] \<and> CHR ''#'' \<in> set naming_series
           then update_naming_series e naming_series doctype d
           else Inr d)
      | _ \<Rightarrow> Inr d)"

section \<open>The batch deletion executor\<close>

text \<open>The identifiers fetched for one inventory entry (lines 197 to 200).\<close>

definition reference_doc_names :: "system \<Rightarrow> transaction_deletion_record_item \<Rightarrow> val list" where
  "reference_doc_names s docfield =
     pluck ''name''
       (get_all_limit (db s) (doctype_name docfield)
          [(docfield_name docfield, Eq (VStr (company (doc s))))] batch_size)"

text \<open>One batch (lines 197 to 216): the artifacts of the fetched identifiers and the
  child rows are removed and the records of the type are deleted (\<open>delete_references\<close>,
  lines 197 to 208), then the naming series is reconciled and the continuation is
  enqueued.\<close>

definition delete_references :: "transaction_deletion_record_item \<Rightarrow> system \<Rightarrow> db" where
  "delete_references docfield s =
     (let names = reference_doc_names s docfield;
          d1 = delete_version_log (doctype_name docfield) names (db s);
          d2 = delete_communications (doctype_name docfield) names d1;
          d3 = delete_comments (doctype_name docfield) names d2;
          d4 = unlink_attachments (doctype_name docfield) names d3;
          d5 = delete_child_tables (doctype_name docfield) names d4
      in delete_docs_linked_with_specified_company (company (doc s))
           (doctype_name docfield) (docfield_name docfield) d5)"

definition delete_batch ::
  "env \<Rightarrow> transaction_deletion_record_item \<Rightarrow> system \<Rightarrow> error + system" where
  "delete_batch e docfield s =
     (case reconcile_naming_series e (doctype_name docfield) (delete_references docfield s) of
        Inl err \<Rightarrow> Inl err
      | Inr d \<Rightarrow> Inr (chain_callback ''delete_company_transactions'' (s\<lparr>db := d\<rparr>)))"

text \<open>\<^verbatim>\<open>frappe.db.set_value(docfield.doctype, docfield.name, "done", 1)\<close> writes the
  column of the stored row; the row is the \<open>i\<close>-th of the job's inventory.\<close>

definition set_done :: "nat \<Rightarrow> system \<Rightarrow> system" where
  "set_done i s =
     s\<lparr>doc := (doc s)\<lparr>doctypes :=
         (doctypes (doc s))[i := (doctypes (doc s) ! i)\<lparr>done_flag := True\<rparr>]\<rparr>\<rparr>"

definition delete_entry ::
  "env \<Rightarrow> nat \<Rightarrow> transaction_deletion_record_item \<Rightarrow> system \<Rightarrow> error + system" where
  "delete_entry e i docfield s =
     (if doctype_name docfield \<noteq> self_doctype \<and> \<not> done_flag docfield then
        (if get_number_of_docs_linked_with_specified_company s
              (doctype_name docfield) (docfield_name docfield) > 0
         then delete_batch e docfield s
         else Inr (set_done i s))
      else Inr s)"

fun delete_entries ::
  "env \<Rightarrow> nat \<Rightarrow> transaction_deletion_record_item list \<Rightarrow> system \<Rightarrow> error + system" where
  "delete_entries e i [] s = Inr s"
| "delete_entries e i (docfield # rest) s =
     (case delete_entry e i docfield s of
        Inl err \<Rightarrow> Inl err
      | Inr s' \<Rightarrow> delete_entries e (Suc i) rest s')"

text \<open>The stage reads the ignore list, the reference fields and the child tables
  first (lines 187 to 190) and uses none of them: its loop runs over the inventory.\<close>

definition delete_company_transactions :: "env \<Rightarrow> system \<Rightarrow> error + system" where
  "delete_company_transactions e s =
     (if \<not> delete_transactions (doc s) then
        (case delete_entries e 0 (doctypes (doc s)) s of
           Inl err \<Rightarrow> Inl err
         | Inr s' \<Rightarrow> Inr (s'\<lparr>doc := (doc s')\<lparr>delete_transactions := True\<rparr>\<rparr>))
      else Inr s)"

section \<open>The orchestrator\<close>

definition and_then :: "error + system \<Rightarrow> (system \<Rightarrow> error + system) \<Rightarrow> error + system" where
  "and_then r f = (case r of Inl err \<Rightarrow> Inl err | Inr s \<Rightarrow> f s)"

definition start_deletion_process :: "env \<Rightarrow> system \<Rightarrow> error + system" where
  "start_deletion_process e s =
     and_then (and_then (and_then (and_then (and_then
       (delete_bins s)
       (delete_lead_addresses e))
       reset_company_values)
       delete_notifications)
       initialize_doctypes_to_be_deleted_table)
       (delete_company_transactions e)"

text \<open>\<^verbatim>\<open>frappe.utils.background_jobs.run_doc_method\<close>, the continuation the queue runs:
  the method of that name on the job. The names the stages enqueue are these six.\<close>

definition run_doc_method :: "env \<Rightarrow> string \<Rightarrow> system \<Rightarrow> error + system" where
  "run_doc_method e method s =
     (if method = ''delete_bins'' then delete_bins s
      else if method = ''delete_lead_addresses'' then delete_lead_addresses e s
      else if method = ''reset_company_values'' then reset_company_values s
      else if method = ''delete_notifications'' then delete_notifications s
      else if method = ''initialize_doctypes_to_be_deleted_table''
        then initialize_doctypes_to_be_deleted_table s
      else if method = ''delete_company_transactions'' then delete_company_transactions e s
      else if method = ''start_deletion_process'' then start_deletion_process e s
      else Inl AttributeError)"

text \<open>
  The operations on a job: the document hooks the framework calls when the job is
  saved, submitted or cancelled, and the methods run on it. An operation that raises
  leaves the state as it was.
\<close>

datatype operation =
  Validate | BeforeSubmit | BeforeSave | OnSubmit | OnCancel | RunDocMethod string

fun operate :: "env \<Rightarrow> operation \<Rightarrow> system \<Rightarrow> error + system" where
  "operate e Validate s = (case validate e (doc s) of Inl err \<Rightarrow> Inl err | Inr u \<Rightarrow> Inr s)"
| "operate e BeforeSubmit s = Inr (s\<lparr>doc := before_submit e (doc s)\<rparr>)"
| "operate e BeforeSave s = Inr (s\<lparr>doc := before_save (doc s)\<rparr>)"
| "operate e OnSubmit s = Inr (s\<lparr>doc := on_submit (doc s)\<rparr>)"
| "operate e OnCancel s = Inr (s\<lparr>doc := on_cancel (doc s)\<rparr>)"
| "operate e (RunDocMethod method) s = run_doc_method e method s"

definition operate_all :: "env \<Rightarrow> operation list \<Rightarrow> system \<Rightarrow> system" where
  "operate_all e ops s =
     foldl (\<lambda>s' op. case operate e op s' of Inl err \<Rightarrow> s' | Inr s'' \<Rightarrow> s'') s ops"

section \<open>Example states\<close>

text \<open>Concrete inputs on which the theorems below are instantiated and the code is
  run: a privileged session with one hooked type, a fresh job for the company
  \<^verbatim>\<open>C1\<close>, and a job with every checkpoint flag set.\<close>

definition env0 :: env where
  "env0 = \<lparr>hooks = [''Item''], system_manager = True, cint_rest = (\<lambda>s. 0),
     unread_sql = (\<lambda>text d. Inl ProgrammingError)\<rparr>"

definition job0 :: transaction_deletion_record where
  "job0 = \<lparr>name = ''TDR-0001'', company = ''C1'', status = [],
     clear_notifications = False, delete_bin_data = False,
     delete_leads_and_addresses = False, delete_transactions = False,
     initialize_doctypes_table = False, reset_company_default_values = False,
     doctypes = [], doctypes_to_be_ignored = []\<rparr>"

definition job_finished :: transaction_deletion_record where
  "job_finished = job0\<lparr>status := ''Cancelled'',
     clear_notifications := True, delete_bin_data := True,
     delete_leads_and_addresses := True, delete_transactions := True,
     initialize_doctypes_table := True, reset_company_default_values := True\<rparr>"

text \<open>A store with three invoices of \<^verbatim>\<open>C1\<close> and one of \<^verbatim>\<open>C2\<close>, a quotation of
  \<^verbatim>\<open>C2\<close>, comments and item rows on the invoices, and the catalog rows of these
  types.\<close>

definition invoice_db :: db where
  "invoice_db = (\<lambda>t. [])
     (''Sales Invoice'' :=
        [[''name'' \<mapsto> VStr ''SI-1'', ''company'' \<mapsto> VStr ''C1''],
         [''name'' \<mapsto> VStr ''SI-2'', ''company'' \<mapsto> VStr ''C1''],
         [''name'' \<mapsto> VStr ''SI-3'', ''company'' \<mapsto> VStr ''C1''],
         [''name'' \<mapsto> VStr ''SI-4'', ''company'' \<mapsto> VStr ''C2'']],
      ''Quotation'' :=
        [[''name'' \<mapsto> VStr ''QTN-1'', ''company'' \<mapsto> VStr ''C2'']],
      ''Comment'' :=
        [[''name'' \<mapsto> VStr ''CM-1'', ''reference_doctype'' \<mapsto> VStr ''Sales Invoice'',
          ''reference_name'' \<mapsto> VStr ''SI-1''],
         [''name'' \<mapsto> VStr ''CM-2'', ''reference_doctype'' \<mapsto> VStr ''Sales Invoice'',
          ''reference_name'' \<mapsto> VStr ''SI-4'']],
      ''Sales Invoice Item'' :=
        [[''name'' \<mapsto> VStr ''r1'', ''parent'' \<mapsto> VStr ''SI-2''],
         [''name'' \<mapsto> VStr ''r2'', ''parent'' \<mapsto> VStr ''SI-4'']],
      ''DocField'' :=
        [[''parent'' \<mapsto> VStr ''Sales Invoice'', ''fieldname'' \<mapsto> VStr ''company'',
          ''fieldtype'' \<mapsto> VStr ''Link'', ''options'' \<mapsto> VStr ''Company''],
         [''parent'' \<mapsto> VStr ''Sales Invoice'', ''fieldname'' \<mapsto> VStr ''items'',
          ''fieldtype'' \<mapsto> VStr ''Table'', ''options'' \<mapsto> VStr ''Sales Invoice Item''],
         [''parent'' \<mapsto> VStr ''Quotation'', ''fieldname'' \<mapsto> VStr ''company'',
          ''fieldtype'' \<mapsto> VStr ''Link'', ''options'' \<mapsto> VStr ''Company'']],
      ''DocType'' :=
        [[''name'' \<mapsto> VStr ''Sales Invoice'', ''issingle'' \<mapsto> VInt 0, ''istable'' \<mapsto> VInt 0,
          ''autoname'' \<mapsto> VStr ''naming_series:''],
         [''name'' \<mapsto> VStr ''Quotation'', ''issingle'' \<mapsto> VInt 0, ''istable'' \<mapsto> VInt 0,
          ''autoname'' \<mapsto> VStr ''naming_series:''],
         [''name'' \<mapsto> VStr ''Sales Invoice Item'', ''issingle'' \<mapsto> VInt 0,
          ''istable'' \<mapsto> VInt 1]])"

definition finished_state :: system where
  "finished_state =
     \<lparr>doc = job_finished, db = invoice_db, queue = [],
      notification_counts = [(''Sales Invoice'', 3)]\<rparr>"

text \<open>A store with 5001 invoices of \<^verbatim>\<open>C1\<close> and no other row, and the job whose
  inventory holds the invoices' type.\<close>

definition bulk_invoice :: "nat \<Rightarrow> row" where
  "bulk_invoice i = [''name'' \<mapsto> VStr (''SI-'' @ replicate i CHR ''I''), ''company'' \<mapsto> VStr ''C1'']"

definition bulk_db :: db where
  "bulk_db = (\<lambda>t. [])(''Sales Invoice'' := map bulk_invoice [0..<5001])"

definition bulk_entry :: transaction_deletion_record_item where
  "bulk_entry = \<lparr>doctype_name = ''Sales Invoice'', docfield_name = ''company'', no_of_docs = 0,
              done_flag = False\<rparr>"

definition bulk_state :: system where
  "bulk_state = \<lparr>doc = job0\<lparr>status := ''Queued'', doctypes := [bulk_entry]\<rparr>,
      db = bulk_db, queue = [], notification_counts = []\<rparr>"

text \<open>The job of the scenario of the spec: its inventory holds the invoices' type
  (three records of \<^verbatim>\<open>C1\<close>) and the quotations' type (none of \<^verbatim>\<open>C1\<close>).\<close>

definition invoice_state :: system where
  "invoice_state =
     \<lparr>doc = job0\<lparr>status := ''Queued'', clear_notifications := True, delete_bin_data := True,
          delete_leads_and_addresses := True, initialize_doctypes_table := True,
          reset_company_default_values := True,
          doctypes :=
            [\<lparr>doctype_name = ''Sales Invoice'', docfield_name = ''company'', no_of_docs = 0,
              done_flag = False\<rparr>,
             \<lparr>doctype_name = ''Quotation'', docfield_name = ''company'', no_of_docs = 0,
              done_flag = False\<rparr>]\<rparr>,
      db = invoice_db, queue = [], notification_counts = []\<rparr>"

text \<open>A catalog with five types that have a \<^verbatim>\<open>Link\<close> field to \<^verbatim>\<open>Company\<close>: the
  invoices, their item rows (a child table), the quotations (no record of \<^verbatim>\<open>C1\<close>), the
  singleton \<^verbatim>\<open>Global Defaults\<close> and the job's own type.\<close>

definition catalog_db :: db where
  "catalog_db = (\<lambda>t. [])
     (''Sales Invoice'' :=
        [[''name'' \<mapsto> VStr ''SI-1'', ''company'' \<mapsto> VStr ''C1'']],
      ''Sales Invoice Item'' :=
        [[''name'' \<mapsto> VStr ''r1'', ''parent'' \<mapsto> VStr ''SI-1'', ''company'' \<mapsto> VStr ''C1'']],
      ''Quotation'' :=
        [[''name'' \<mapsto> VStr ''QTN-1'', ''company'' \<mapsto> VStr ''C2'']],
      ''Global Defaults'' :=
        [[''name'' \<mapsto> VStr ''Global Defaults'', ''default_company'' \<mapsto> VStr ''C1'']],
      ''Transaction Deletion Record'' :=
        [[''name'' \<mapsto> VStr ''TDR-0001'', ''company'' \<mapsto> VStr ''C1'']],
      ''DocField'' :=
        [[''parent'' \<mapsto> VStr ''Sales Invoice'', ''fieldname'' \<mapsto> VStr ''company'',
          ''fieldtype'' \<mapsto> VStr ''Link'', ''options'' \<mapsto> VStr ''Company''],
         [''parent'' \<mapsto> VStr ''Sales Invoice'', ''fieldname'' \<mapsto> VStr ''items'',
          ''fieldtype'' \<mapsto> VStr ''Table'', ''options'' \<mapsto> VStr ''Sales Invoice Item''],
         [''parent'' \<mapsto> VStr ''Sales Invoice Item'', ''fieldname'' \<mapsto> VStr ''company'',
          ''fieldtype'' \<mapsto> VStr ''Link'', ''options'' \<mapsto> VStr ''Company''],
         [''parent'' \<mapsto> VStr ''Quotation'', ''fieldname'' \<mapsto> VStr ''company'',
          ''fieldtype'' \<mapsto> VStr ''Link'', ''options'' \<mapsto> VStr ''Company''],
         [''parent'' \<mapsto> VStr ''Global Defaults'', ''fieldname'' \<mapsto> VStr ''default_company'',
          ''fieldtype'' \<mapsto> VStr ''Link'', ''options'' \<mapsto> VStr ''Company''],
         [''parent'' \<mapsto> VStr ''Transaction Deletion Record'', ''fieldname'' \<mapsto> VStr ''company'',
          ''fieldtype'' \<mapsto> VStr ''Link'', ''options'' \<mapsto> VStr ''Company'']],
      ''DocType'' :=
        [[''name'' \<mapsto> VStr ''Sales Invoice'', ''issingle'' \<mapsto> VInt 0, ''istable'' \<mapsto> VInt 0],
         [''name'' \<mapsto> VStr ''Sales Invoice Item'', ''issingle'' \<mapsto> VInt 0,
          ''istable'' \<mapsto> VInt 1],
         [''name'' \<mapsto> VStr ''Quotation'', ''issingle'' \<mapsto> VInt 0, ''istable'' \<mapsto> VInt 0],
         [''name'' \<mapsto> VStr ''Global Defaults'', ''issingle'' \<mapsto> VInt 1,
          ''istable'' \<mapsto> VInt 0],
         [''name'' \<mapsto> VStr ''Transaction Deletion Record'', ''issingle'' \<mapsto> VInt 0,
          ''istable'' \<mapsto> VInt 0]])"

definition catalog_state :: system where
  "catalog_state =
     \<lparr>doc = job0\<lparr>status := ''Queued'', clear_notifications := True, delete_bin_data := True,
          delete_leads_and_addresses := True, reset_company_default_values := True\<rparr>,
      db = catalog_db, queue = [], notification_counts = []\<rparr>"

text \<open>The inventory as claim C4 words it: the types with a \<^verbatim>\<open>Link\<close> field to
  \<^verbatim>\<open>Company\<close>, minus the ignored types, that have a record of the company.\<close>

definition claimed_inventory :: "system \<Rightarrow> string list" where
  "claimed_inventory s =
     map fst
       (filter (\<lambda>docfield.
            0 < get_number_of_docs_linked_with_specified_company s (fst docfield) (snd docfield))
          (get_doctypes_with_company_field s (get_doctypes_to_be_ignored_list s)))"

text \<open>The same job with the flag of the stage set and nothing in its inventory, and
  with the flag unset and an inventory that already holds the quotations' type.\<close>

definition catalog_done_state :: system where
  "catalog_done_state =
     catalog_state\<lparr>doc := (doc catalog_state)\<lparr>initialize_doctypes_table := True\<rparr>\<rparr>"

definition catalog_stale_state :: system where
  "catalog_stale_state =
     catalog_state\<lparr>doc := (doc catalog_state)\<lparr>doctypes :=
       [\<lparr>doctype_name = ''Quotation'', docfield_name = ''company'', no_of_docs = 0,
         done_flag = False\<rparr>]\<rparr>\<rparr>"







text \<open>A store with three numbered types and their series counters: invoices
  \<^verbatim>\<open>INV-.#####\<close> with two surviving records, receipts \<^verbatim>\<open>RCP-.#####\<close> with none,
  journals \<^verbatim>\<open>2024.#####\<close> with one; the quotations are not numbered by a pattern.\<close>

definition series_db :: db where
  "series_db = (\<lambda>t. [])
     (''Invoice'' :=
        [[''name'' \<mapsto> VStr ''INV-00007'', ''company'' \<mapsto> VStr ''C2''],
         [''name'' \<mapsto> VStr ''INV-00042'', ''company'' \<mapsto> VStr ''C2'']],
      ''Quotation'' :=
        [[''name'' \<mapsto> VStr ''QTN-1'', ''company'' \<mapsto> VStr ''C2'']],
      ''Journal'' :=
        [[''name'' \<mapsto> VStr ''202402024'', ''company'' \<mapsto> VStr ''C2'']],
      ''Series'' :=
        [[''name'' \<mapsto> VStr ''INV-'', ''current'' \<mapsto> VInt 57],
         [''name'' \<mapsto> VStr ''RCP-'', ''current'' \<mapsto> VInt 9],
         [''name'' \<mapsto> VStr ''2024'', ''current'' \<mapsto> VInt 2500]],
      ''DocType'' :=
        [[''name'' \<mapsto> VStr ''Invoice'', ''autoname'' \<mapsto> VStr ''INV-.#####''],
         [''name'' \<mapsto> VStr ''Receipt'', ''autoname'' \<mapsto> VStr ''RCP-.#####''],
         [''name'' \<mapsto> VStr ''Journal'', ''autoname'' \<mapsto> VStr ''2024.#####''],
         [''name'' \<mapsto> VStr ''Quotation'', ''autoname'' \<mapsto> VStr ''naming_series:'']])"

text \<open>The numeric suffix of an identifier, as claim C7 uses it: the number written by
  the digits that follow the prefix.\<close>

definition numeric_suffix :: "string \<Rightarrow> string \<Rightarrow> nat option" where
  "numeric_suffix pre nm =
     (if take (length pre) nm = pre \<and> drop (length pre) nm \<noteq> [] \<and>
         list_all is_digit (drop (length pre) nm)
      then Some (nat_of_digits (drop (length pre) nm)) else None)"

text \<open>A store for the lead and address cleanup: the lead \<^verbatim>\<open>L1\<close> of \<^verbatim>\<open>C1\<close>, the
  address \<^verbatim>\<open>A1\<close> linked to \<^verbatim>\<open>L1\<close> and to a customer, the address \<^verbatim>\<open>A2\<close> linked to
  \<^verbatim>\<open>L1\<close> only, and two customers that came from leads.\<close>

definition address_a1 :: row where
  "address_a1 = [''name'' \<mapsto> VStr ''A1'', ''city'' \<mapsto> VStr ''Pune'']"

definition address_a2 :: row where
  "address_a2 = [''name'' \<mapsto> VStr ''A2'', ''city'' \<mapsto> VStr ''Mumbai'']"

definition link_a1_lead :: row where
  "link_a1_lead = [''parent'' \<mapsto> VStr ''A1'', ''parenttype'' \<mapsto> VStr ''Address'',
     ''link_doctype'' \<mapsto> VStr ''Lead'', ''link_name'' \<mapsto> VStr ''L1'']"

definition link_a1_customer :: row where
  "link_a1_customer = [''parent'' \<mapsto> VStr ''A1'', ''parenttype'' \<mapsto> VStr ''Address'',
     ''link_doctype'' \<mapsto> VStr ''Customer'', ''link_name'' \<mapsto> VStr ''CU9'']"

definition link_a2_lead :: row where
  "link_a2_lead = [''parent'' \<mapsto> VStr ''A2'', ''parenttype'' \<mapsto> VStr ''Address'',
     ''link_doctype'' \<mapsto> VStr ''Lead'', ''link_name'' \<mapsto> VStr ''L1'']"

definition lead_db :: db where
  "lead_db = (\<lambda>t. [])
     (''Lead'' :=
        [[''name'' \<mapsto> VStr ''L1'', ''company'' \<mapsto> VStr ''C1''],
         [''name'' \<mapsto> VStr ''L2'', ''company'' \<mapsto> VStr ''C2'']],
      ''Address'' := [address_a1, address_a2],
      ''Dynamic Link'' := [link_a1_lead, link_a1_customer, link_a2_lead],
      ''Customer'' :=
        [[''name'' \<mapsto> VStr ''CU1'', ''lead_name'' \<mapsto> VStr ''L1''],
         [''name'' \<mapsto> VStr ''CU9'', ''lead_name'' \<mapsto> VStr ''L2'']])"

definition lead_state :: system where
  "lead_state =
     \<lparr>doc = job0\<lparr>status := ''Queued'', delete_bin_data := True\<rparr>,
      db = lead_db, queue = [], notification_counts = []\<rparr>"

text \<open>The same store with the lead of \<^verbatim>\<open>C1\<close> named \<^verbatim>\<open>L'1\<close>.\<close>

definition lead_quote :: string where
  "lead_quote = ''L'' @ [quote] @ ''1''"

definition quote_lead_db :: db where
  "quote_lead_db = lead_db
     (''Lead'' :=
        [[''name'' \<mapsto> VStr lead_quote, ''company'' \<mapsto> VStr ''C1''],
         [''name'' \<mapsto> VStr ''L2'', ''company'' \<mapsto> VStr ''C2'']],
      ''Dynamic Link'' :=
        [link_a1_lead(''link_name'' \<mapsto> VStr lead_quote), link_a1_customer,
         link_a2_lead(''link_name'' \<mapsto> VStr lead_quote)],
      ''Customer'' :=
        [[''name'' \<mapsto> VStr ''CU1'', ''lead_name'' \<mapsto> VStr lead_quote],
         [''name'' \<mapsto> VStr ''CU9'', ''lead_name'' \<mapsto> VStr ''L2'']])"

definition quote_lead_state :: system where
  "quote_lead_state = lead_state\<lparr>db := quote_lead_db\<rparr>"

text \<open>The store \<open>lead_db\<close> with a contact that bears the name of the address
  \<^verbatim>\<open>A2\<close> and is linked to a customer.\<close>

definition contact_a2_customer :: row where
  "contact_a2_customer = [''parent'' \<mapsto> VStr ''A2'', ''parenttype'' \<mapsto> VStr ''Contact'',
     ''link_doctype'' \<mapsto> VStr ''Customer'', ''link_name'' \<mapsto> VStr ''CU9'']"

definition shared_name_db :: db where
  "shared_name_db = lead_db
     (''Dynamic Link'' := [link_a1_lead, link_a1_customer, link_a2_lead, contact_a2_customer])"

definition shared_name_state :: system where
  "shared_name_state = lead_state\<lparr>db := shared_name_db\<rparr>"

text \<open>The catalog's job once its inventory holds the invoices' type.\<close>

definition catalog_ready_state :: system where
  "catalog_ready_state =
     catalog_state\<lparr>doc := (doc catalog_state)\<lparr>initialize_doctypes_table := True,
        doctypes := [bulk_entry]\<rparr>\<rparr>"

text \<open>Shorthands of the statements on singleton types: the types of the inventory,
  the child tables the schema declares (the \<^verbatim>\<open>options\<close> of the \<^verbatim>\<open>Table\<close> fields), and
  the tables the stages address by name.\<close>

abbreviation inventory_types :: "system \<Rightarrow> string list" where
  "inventory_types s \<equiv> map doctype_name (doctypes (doc s))"

abbreviation table_options :: "db \<Rightarrow> string list" where
  "table_options d \<equiv>
     pluck_str ''options'' (get_all d ''DocField'' [(''fieldtype'', Eq (VStr ''Table''))])"

abbreviation pipeline_tables :: "string list" where
  "pipeline_tables \<equiv>
     [''Bin'', ''Address'', ''Dynamic Link'', ''Customer'', ''Company'', ''Version'',
      ''Communication'', ''Comment'', ''File'', ''Series'']"

section \<open>Validation\<close>

lemma check_ignored_entries_ok:
  "check_ignored_entries allowed xs =
     (if list_all (\<lambda>x. doctype_name x \<in> set allowed) xs then Inr () else Inl ValidationError)"
  by (induction xs) auto

text \<open>
  Claim C8. The framework runs \<open>validate\<close> when a job is submitted. It raises
  \<^verbatim>\<open>PermissionError\<close> when the session lacks the System Manager privilege; for a
  privileged session it raises \<^verbatim>\<open>ValidationError\<close> when some entry of the job's
  ignored-types table is not in the resolver's list, and passes when every entry is in
  it. The privilege is checked first. The resolver's list holds the built-in types and
  the hooked types, and nothing else.
\<close>

theorem validate_cases:
  "(\<not> system_manager e \<longrightarrow> validate e self = Inl PermissionError) \<and>
   (system_manager e \<and>
      list_ex (\<lambda>x. doctype_name x \<notin> set (get_doctypes_to_be_ignored e))
        (doctypes_to_be_ignored self)
      \<longrightarrow> validate e self = Inl ValidationError) \<and>
   (system_manager e \<and>
      list_all (\<lambda>x. doctype_name x \<in> set (get_doctypes_to_be_ignored e))
        (doctypes_to_be_ignored self)
      \<longrightarrow> validate e self = Inr ()) \<and>
   set (get_doctypes_to_be_ignored e) = set builtin_doctypes_to_be_ignored \<union> set (hooks e)"
  by (auto simp: validate_def only_for_system_manager_def validate_doctypes_to_be_ignored_def
      check_ignored_entries_ok get_doctypes_to_be_ignored_def list_all_iff list_ex_iff)

theorem validate_cases_witness:
  "validate (env0\<lparr>system_manager := False\<rparr>) job0 = Inl PermissionError \<and>
   validate env0 (job0\<lparr>doctypes_to_be_ignored := [ignored_item ''Sales Invoice'']\<rparr>)
     = Inl ValidationError \<and>
   validate env0
     (job0\<lparr>doctypes_to_be_ignored := [ignored_item ''Account'', ignored_item ''Item'']\<rparr>)
     = Inr ()"
proof -
  have a: "\<not> system_manager (env0\<lparr>system_manager := False\<rparr>)"
    by simp
  have b: "system_manager env0 \<and>
      list_ex (\<lambda>x. doctype_name x \<notin> set (get_doctypes_to_be_ignored env0))
        (doctypes_to_be_ignored
           (job0\<lparr>doctypes_to_be_ignored := [ignored_item ''Sales Invoice'']\<rparr>))"
    by (simp add: env0_def ignored_item_def get_doctypes_to_be_ignored_def
        builtin_doctypes_to_be_ignored_def)
  have c: "system_manager env0 \<and>
      list_all (\<lambda>x. doctype_name x \<in> set (get_doctypes_to_be_ignored env0))
        (doctypes_to_be_ignored
           (job0\<lparr>doctypes_to_be_ignored := [ignored_item ''Account'', ignored_item ''Item'']\<rparr>))"
    by (simp add: env0_def ignored_item_def get_doctypes_to_be_ignored_def
        builtin_doctypes_to_be_ignored_def)
  from a b c validate_cases [of "env0\<lparr>system_manager := False\<rparr>" job0]
    validate_cases [of env0 "job0\<lparr>doctypes_to_be_ignored := [ignored_item ''Sales Invoice'']\<rparr>"]
    validate_cases [of env0
      "job0\<lparr>doctypes_to_be_ignored := [ignored_item ''Account'', ignored_item ''Item'']\<rparr>"]
  show ?thesis by blast
qed

section \<open>The checkpoint flags on save and submission\<close>

lemma before_save_resets:
  "\<not> clear_notifications (before_save self) \<and> \<not> delete_bin_data (before_save self) \<and>
   \<not> delete_leads_and_addresses (before_save self) \<and> \<not> delete_transactions (before_save self) \<and>
   \<not> reset_company_default_values (before_save self) \<and> status (before_save self) = []"
  by (simp add: before_save_def reset_task_flags_def)

lemma before_save_initialize_doctypes_table:
  "initialize_doctypes_table (before_save self) = initialize_doctypes_table self"
  by (simp add: before_save_def reset_task_flags_def)

text \<open>
  Claim C5. Saving and then submitting a job clears the status, sets it to
  \<^verbatim>\<open>Queued\<close> and resets five checkpoint flags. \<open>reset_task_flags\<close> does not name
  \<open>initialize_doctypes_table\<close>: on a job that carries every flag, the
  inventory-initialized flag is still set after \<open>before_save\<close> and \<open>on_submit\<close>.
\<close>

theorem before_save_misses_initialize_doctypes_table:
  "initialize_doctypes_table (on_submit (before_save job_finished)) \<and>
   \<not> clear_notifications (on_submit (before_save job_finished)) \<and>
   \<not> delete_bin_data (on_submit (before_save job_finished)) \<and>
   \<not> delete_leads_and_addresses (on_submit (before_save job_finished)) \<and>
   \<not> delete_transactions (on_submit (before_save job_finished)) \<and>
   \<not> reset_company_default_values (on_submit (before_save job_finished)) \<and>
   status (before_save job_finished) = [] \<and>
   status (on_submit (before_save job_finished)) = ''Queued''"
  by (simp add: job_finished_def job0_def before_save_def reset_task_flags_def on_submit_def)

section \<open>Re-entering a completed stage\<close>

text \<open>
  Claim C3. Each of the five stages with a successor (bins, lead addresses, company
  values, notifications, inventory initialization), entered with its checkpoint flag
  set, returns the state it was given with one more queue entry: the continuation of
  its successor. The job, the record store and the notification cache are unchanged.
\<close>

theorem completed_stage_only_chains:
  "(delete_bin_data (doc s) \<longrightarrow>
      delete_bins s =
        Inr (s\<lparr>queue := queue s @ [(self_doctype, name (doc s), ''delete_lead_addresses'')]\<rparr>)) \<and>
   (delete_leads_and_addresses (doc s) \<longrightarrow>
      delete_lead_addresses e s =
        Inr (s\<lparr>queue := queue s @ [(self_doctype, name (doc s), ''reset_company_values'')]\<rparr>)) \<and>
   (reset_company_default_values (doc s) \<longrightarrow>
      reset_company_values s =
        Inr (s\<lparr>queue := queue s @ [(self_doctype, name (doc s), ''delete_notifications'')]\<rparr>)) \<and>
   (clear_notifications (doc s) \<longrightarrow>
      delete_notifications s =
        Inr (s\<lparr>queue := queue s @
          [(self_doctype, name (doc s), ''initialize_doctypes_to_be_deleted_table'')]\<rparr>)) \<and>
   (initialize_doctypes_table (doc s) \<longrightarrow>
      initialize_doctypes_to_be_deleted_table s =
        Inr (s\<lparr>queue := queue s @
          [(self_doctype, name (doc s), ''delete_company_transactions'')]\<rparr>))"
  by (simp add: delete_bins_def delete_lead_addresses_def reset_company_values_def
      delete_notifications_def initialize_doctypes_to_be_deleted_table_def chain_callback_def)

theorem completed_stage_only_chains_witness:
  "delete_bins finished_state =
     Inr (finished_state\<lparr>queue := [(self_doctype, ''TDR-0001'', ''delete_lead_addresses'')]\<rparr>) \<and>
   delete_lead_addresses env0 finished_state =
     Inr (finished_state\<lparr>queue := [(self_doctype, ''TDR-0001'', ''reset_company_values'')]\<rparr>) \<and>
   reset_company_values finished_state =
     Inr (finished_state\<lparr>queue := [(self_doctype, ''TDR-0001'', ''delete_notifications'')]\<rparr>) \<and>
   delete_notifications finished_state =
     Inr (finished_state\<lparr>queue :=
       [(self_doctype, ''TDR-0001'', ''initialize_doctypes_to_be_deleted_table'')]\<rparr>) \<and>
   initialize_doctypes_to_be_deleted_table finished_state =
     Inr (finished_state\<lparr>queue :=
       [(self_doctype, ''TDR-0001'', ''delete_company_transactions'')]\<rparr>)"
proof -
  have flags: "delete_bin_data (doc finished_state)"
    "delete_leads_and_addresses (doc finished_state)"
    "reset_company_default_values (doc finished_state)"
    "clear_notifications (doc finished_state)"
    "initialize_doctypes_table (doc finished_state)"
    by (simp_all add: finished_state_def job_finished_def job0_def)
  have q: "queue finished_state = []" "name (doc finished_state) = ''TDR-0001''"
    by (simp_all add: finished_state_def job_finished_def job0_def)
  from flags completed_stage_only_chains [of finished_state env0] show ?thesis
    by (simp add: q)
qed

section \<open>Queries and deletions, table by table\<close>

lemma db_delete_apply:
  "db_delete d t fs t' = (if t' = t then filter (\<lambda>r. \<not> matches fs r) (d t) else d t')"
  by (simp add: db_delete_def)

lemma sql_update_apply:
  "sql_update d t fs f t' = (if t' = t then map (\<lambda>r. if matches fs r then f r else r) (d t) else d t')"
  by (simp add: sql_update_def)

lemma matches_In_append:
  "matches [(c, In (xs @ ys))] r \<longleftrightarrow> matches [(c, In xs)] r \<or> matches [(c, In ys)] r"
  by (auto simp: matches_def split: option.splits)

lemma matches_In_Nil: "\<not> matches [(c, In [])] r"
  by (simp add: matches_def split: option.splits)

lemma delete_doc_Nil: "delete_doc t d [] = d"
  by (simp add: delete_doc_def db_delete_def matches_In_Nil)

lemma delete_doc_append: "delete_doc t (delete_doc t d xs) ys = delete_doc t d (xs @ ys)"
  by (auto simp: delete_doc_def db_delete_def matches_In_append intro!: filter_cong)

lemma foldl_delete_doc_batches:
  "0 < n \<Longrightarrow> foldl (delete_doc t) d (create_batch names n) = delete_doc t d names"
proof (induction names n arbitrary: d rule: create_batch.induct)
  case (1 xs n)
  show ?case
  proof (cases "xs = []")
    case True
    then show ?thesis by (simp add: create_batch.simps delete_doc_Nil)
  next
    case False
    with 1 have "foldl (delete_doc t) (delete_doc t d (take n xs)) (create_batch (drop n xs) n)
        = delete_doc t (delete_doc t d (take n xs)) (drop n xs)"
      by simp
    with False 1(2) show ?thesis
      by (subst create_batch.simps) (simp add: delete_doc_append)
  qed
qed

lemma unlink_files_Nil: "unlink_files d [] = d"
  by (simp add: unlink_files_def sql_update_def matches_In_Nil)

lemma unlink_files_append: "unlink_files (unlink_files d xs) ys = unlink_files d (xs @ ys)"
  by (auto simp: unlink_files_def sql_update_def matches_In_append fun_eq_iff matches_def
      split: option.splits)


lemma foldl_unlink_files_batches:
  "0 < n \<Longrightarrow> foldl unlink_files d (create_batch names n) = unlink_files d names"
proof (induction names n arbitrary: d rule: create_batch.induct)
  case (1 xs n)
  show ?case
  proof (cases "xs = []")
    case True
    then show ?thesis by (simp add: create_batch.simps unlink_files_Nil)
  next
    case False
    with 1 have "foldl unlink_files (unlink_files d (take n xs)) (create_batch (drop n xs) n)
        = unlink_files (unlink_files d (take n xs)) (drop n xs)"
      by simp
    with False 1(2) show ?thesis
      by (subst create_batch.simps) (simp add: unlink_files_append)
  qed
qed

lemma delete_communications_eq:
  "delete_communications doctype names d =
     delete_doc ''Communication'' d
       (pluck ''name'' (get_all d ''Communication''
          [(''reference_doctype'', Eq (VStr doctype)), (''reference_name'', In names)]))"
  by (simp add: delete_communications_def Let_def foldl_delete_doc_batches batch_size_def
      delete_doc_Nil)

lemma delete_comments_eq:
  "delete_comments doctype names d =
     delete_doc ''Comment'' d
       (pluck ''name'' (get_all d ''Comment''
          [(''reference_doctype'', Eq (VStr doctype)), (''reference_name'', In names)]))"
  by (simp add: delete_comments_def Let_def foldl_delete_doc_batches batch_size_def
      delete_doc_Nil)

lemma unlink_attachments_eq:
  "unlink_attachments doctype names d =
     unlink_files d
       (pluck ''name'' (get_all d ''File''
          [(''attached_to_doctype'', Eq (VStr doctype)), (''attached_to_name'', In names)]))"
  by (simp add: unlink_attachments_def Let_def foldl_unlink_files_batches batch_size_def
      unlink_files_Nil)

lemma foldl_delete_child_rows_apply:
  "foldl (delete_child_rows names) d ts t =
     (if t \<in> set ts then filter (\<lambda>r. \<not> matches [(''parent'', In names)] r) (d t) else d t)"
  by (induction ts arbitrary: d) (auto simp: delete_child_rows_def db_delete_apply)

lemma delete_version_log_apply:
  "delete_version_log doctype names d t =
     (if t = ''Version''
      then filter (\<lambda>r. \<not> matches [(''ref_doctype'', Eq (VStr doctype)), (''docname'', In names)] r)
             (d ''Version'')
      else d t)"
  by (simp add: delete_version_log_def db_delete_apply)

lemma delete_doc_apply:
  "delete_doc doctype d names t =
     (if t = doctype then filter (\<lambda>r. \<not> matches [(''name'', In names)] r) (d doctype) else d t)"
  by (simp add: delete_doc_def db_delete_apply)

lemma unlink_files_apply:
  "unlink_files d names t =
     (if t = ''File''
      then map (\<lambda>r. if matches [(''name'', In names)] r
                     then r(''attached_to_doctype'' := None, ''attached_to_name'' := None) else r)
             (d ''File'')
      else d t)"
  by (simp add: unlink_files_def sql_update_apply)

lemma delete_child_tables_apply:
  "delete_child_tables doctype names d t =
     (if t \<in> set (pluck_str ''options'' (get_all d ''DocField''
                     [(''fieldtype'', Eq (VStr ''Table'')), (''parent'', Eq (VStr doctype))]))
      then filter (\<lambda>r. \<not> matches [(''parent'', In names)] r) (d t) else d t)"
  by (simp add: delete_child_tables_def Let_def foldl_delete_child_rows_apply)

lemma delete_docs_linked_apply:
  "delete_docs_linked_with_specified_company c doctype f d t =
     (if t = doctype then filter (\<lambda>r. \<not> matches [(f, Eq (VStr c))] r) (d doctype) else d t)"
  by (simp add: delete_docs_linked_with_specified_company_def db_delete_apply)

lemma length_reference_doc_names: "length (reference_doc_names s docfield) \<le> batch_size"
proof -
  have "length (pluck col rows) \<le> length rows" for col and rows :: "row list"
    by (induction rows) (auto simp: pluck_def split: option.splits)
  then have "length (reference_doc_names s docfield)
      \<le> length (get_all_limit (db s) (doctype_name docfield)
          [(docfield_name docfield, Eq (VStr (company (doc s))))] batch_size)"
    by (simp add: reference_doc_names_def)
  also have "\<dots> \<le> batch_size"
    by (simp add: get_all_limit_def)
  finally show ?thesis .
qed


lemma set_map_filter_eq: "set (List.map_filter f xs) = {y. \<exists>x\<in>set xs. f x = Some y}"
  by (induction xs) (auto split: option.splits)

lemma set_pluck_str_mono:
  "set rows \<subseteq> set rows' \<Longrightarrow> set (pluck_str col rows) \<subseteq> set (pluck_str col rows')"
  by (auto simp: pluck_str_def pluck_def set_map_filter_eq)

lemma db_delete_subset: "set (db_delete d t fs t') \<subseteq> set (d t')"
  by (simp add: db_delete_apply)

lemma delete_version_log_subset: "set (delete_version_log doctype names d t) \<subseteq> set (d t)"
  by (simp add: delete_version_log_def db_delete_subset)

lemma delete_communications_subset: "set (delete_communications doctype names d t) \<subseteq> set (d t)"
  by (simp add: delete_communications_eq delete_doc_def db_delete_subset)

lemma delete_comments_subset: "set (delete_comments doctype names d t) \<subseteq> set (d t)"
  by (simp add: delete_comments_eq delete_doc_def db_delete_subset)

lemma unlink_attachments_frame: "t \<noteq> ''File'' \<Longrightarrow> unlink_attachments doctype names d t = d t"
  by (simp add: unlink_attachments_eq unlink_files_apply)

lemma delete_child_tables_subset: "set (delete_child_tables doctype names d t) \<subseteq> set (d t)"
  by (simp add: delete_child_tables_apply)

lemma delete_docs_linked_subset:
  "set (delete_docs_linked_with_specified_company c doctype f d t) \<subseteq> set (d t)"
  by (simp add: delete_docs_linked_with_specified_company_def db_delete_subset)

lemma delete_references_subset:
  assumes "t \<noteq> ''File''"
  shows "set (delete_references docfield s t) \<subseteq> set (db s t)"
proof -
  define names where "names = reference_doc_names s docfield"
  define d1 where "d1 = delete_version_log (doctype_name docfield) names (db s)"
  define d2 where "d2 = delete_communications (doctype_name docfield) names d1"
  define d3 where "d3 = delete_comments (doctype_name docfield) names d2"
  define d4 where "d4 = unlink_attachments (doctype_name docfield) names d3"
  define d5 where "d5 = delete_child_tables (doctype_name docfield) names d4"
  have "delete_references docfield s =
      delete_docs_linked_with_specified_company (company (doc s))
        (doctype_name docfield) (docfield_name docfield) d5"
    by (simp add: delete_references_def Let_def names_def d1_def d2_def d3_def d4_def d5_def)
  then have "set (delete_references docfield s t) \<subseteq> set (d5 t)"
    by (simp add: delete_docs_linked_subset)
  also have "\<dots> \<subseteq> set (d4 t)"
    by (simp add: d5_def delete_child_tables_subset)
  also have "\<dots> = set (d3 t)"
    using assms by (simp add: d4_def unlink_attachments_frame)
  also have "\<dots> \<subseteq> set (d2 t)"
    by (simp add: d3_def delete_comments_subset)
  also have "\<dots> \<subseteq> set (d1 t)"
    by (simp add: d2_def delete_communications_subset)
  also have "\<dots> \<subseteq> set (db s t)"
    by (simp add: d1_def delete_version_log_subset)
  finally show ?thesis .
qed

lemma delete_references_no_match:
  "r \<in> set (delete_references docfield s (doctype_name docfield)) \<Longrightarrow>
     \<not> matches [(docfield_name docfield, Eq (VStr (company (doc s))))] r"
  by (simp add: delete_references_def Let_def delete_docs_linked_apply)

lemma update_naming_series_frame:
  "update_naming_series e ns doctype d = Inr d' \<Longrightarrow> t \<noteq> ''Series'' \<Longrightarrow> d' t = d t"
  by (auto simp: update_naming_series_def Let_def sql_update_apply split: option.splits if_splits)

lemma reconcile_naming_series_frame:
  "reconcile_naming_series e doctype d = Inr d' \<Longrightarrow> t \<noteq> ''Series'' \<Longrightarrow> d' t = d t"
  by (auto simp: reconcile_naming_series_def update_naming_series_frame
      split: option.splits val.splits if_splits)

lemma get_value_no_rows: "d doctype = [] \<Longrightarrow> get_value d doctype nm col = None"
  by (simp add: get_value_def get_all_def)

lemma reconcile_naming_series_no_catalog:
  "d ''DocType'' = [] \<Longrightarrow> reconcile_naming_series e doctype d = Inr d"
  by (simp add: reconcile_naming_series_def get_value_no_rows)

section \<open>The batch bound\<close>

lemma bulk_matches: "matches [(''company'', Eq (VStr ''C1''))] (bulk_invoice i)"
  by (simp add: matches_def bulk_invoice_def)

lemma bulk_get_all:
  "get_all bulk_db ''Sales Invoice'' [(''company'', Eq (VStr ''C1''))] = map bulk_invoice [0..<5001]"
  by (simp add: get_all_def bulk_db_def filter_map o_def bulk_matches del: upt.simps)

lemma bulk_pluck:
  "pluck ''name'' (map bulk_invoice xs) = map (\<lambda>i. VStr (''SI-'' @ replicate i CHR ''I'')) xs"
  by (induction xs) (simp_all add: pluck_def bulk_invoice_def)

text \<open>
  Claim C1. A batch fetches at most \<open>batch_size\<close> identifiers
  (\<open>length_reference_doc_names\<close>), but \<open>delete_docs_linked_with_specified_company\<close>
  deletes by the company filter and not by the fetched identifiers: whatever the number
  of records, none that references the company is left after one batch
  (\<open>delete_references_no_match\<close>). On the store with 5001 invoices of \<^verbatim>\<open>C1\<close> the
  stage fetches 5000 identifiers and deletes all 5001 invoices in the one batch.
\<close>

theorem one_batch_deletes_every_record:
  "case delete_company_transactions env0 bulk_state of
     Inl err \<Rightarrow> False
   | Inr s' \<Rightarrow>
       db_count (db bulk_state) ''Sales Invoice'' [(''company'', Eq (VStr ''C1''))] = 5001 \<and>
       length (reference_doc_names bulk_state bulk_entry) = 5000 \<and>
       db s' ''Sales Invoice'' = []"
proof -
  let ?d = "delete_references bulk_entry bulk_state"
  have st: "db bulk_state = bulk_db" "company (doc bulk_state) = ''C1''"
    "doctypes (doc bulk_state) = [bulk_entry]" "\<not> delete_transactions (doc bulk_state)"
    by (simp_all add: bulk_state_def job0_def)
  have en: "doctype_name bulk_entry = ''Sales Invoice''" "docfield_name bulk_entry = ''company''"
    "\<not> done_flag bulk_entry"
    by (simp_all add: bulk_entry_def)
  have count: "db_count (db bulk_state) ''Sales Invoice'' [(''company'', Eq (VStr ''C1''))] = 5001"
    by (simp add: db_count_def st bulk_get_all del: upt.simps)
  have names: "length (reference_doc_names bulk_state bulk_entry) = 5000"
    by (simp add: reference_doc_names_def st en get_all_limit_def bulk_get_all batch_size_def
        take_map bulk_pluck del: upt.simps)
  have "set (?d ''DocType'') \<subseteq> set (bulk_db ''DocType'')"
    using delete_references_subset [of "''DocType''" bulk_entry bulk_state] by (simp add: st)
  then have "?d ''DocType'' = []"
    by (simp add: bulk_db_def)
  then have rec: "reconcile_naming_series env0 ''Sales Invoice'' ?d = Inr ?d"
    by (rule reconcile_naming_series_no_catalog)
  have "r \<notin> set (?d ''Sales Invoice'')" for r
  proof
    assume r: "r \<in> set (?d ''Sales Invoice'')"
    with delete_references_subset [of "''Sales Invoice''" bulk_entry bulk_state]
    have "r \<in> set (map bulk_invoice [0..<5001])"
      by (auto simp: st bulk_db_def simp del: upt.simps)
    then have "matches [(''company'', Eq (VStr ''C1''))] r"
      by (auto simp: bulk_matches simp del: upt.simps)
    moreover from r delete_references_no_match [of r bulk_entry bulk_state]
    have "\<not> matches [(''company'', Eq (VStr ''C1''))] r"
      by (simp add: en st)
    ultimately show False by simp
  qed
  then have empty: "?d ''Sales Invoice'' = []"
    by (cases "?d ''Sales Invoice''") auto
  have batch: "delete_batch env0 bulk_entry bulk_state
      = Inr (chain_callback ''delete_company_transactions'' (bulk_state\<lparr>db := ?d\<rparr>))"
    by (simp add: delete_batch_def en rec)
  have "delete_entry env0 0 bulk_entry bulk_state
      = Inr (chain_callback ''delete_company_transactions'' (bulk_state\<lparr>db := ?d\<rparr>))"
    using count
    by (simp add: delete_entry_def en self_doctype_def batch
        get_number_of_docs_linked_with_specified_company_def st)
  then have "delete_company_transactions env0 bulk_state
      = Inr ((chain_callback ''delete_company_transactions'' (bulk_state\<lparr>db := ?d\<rparr>))
          \<lparr>doc := (doc (chain_callback ''delete_company_transactions'' (bulk_state\<lparr>db := ?d\<rparr>)))
             \<lparr>delete_transactions := True\<rparr>\<rparr>)"
    by (simp add: delete_company_transactions_def st)
  then show ?thesis
    using count names empty by (simp add: chain_callback_def)
qed

section \<open>The done flags\<close>

lemma delete_entry_no_records:
  "doctype_name docfield \<noteq> self_doctype \<Longrightarrow> \<not> done_flag docfield \<Longrightarrow>
   get_number_of_docs_linked_with_specified_company s
     (doctype_name docfield) (docfield_name docfield) = 0 \<Longrightarrow>
   delete_entry e i docfield s = Inr (set_done i s)"
  by (simp add: delete_entry_def)

lemma delete_company_transactions_sets_flag:
  "delete_company_transactions e s = Inr s' \<Longrightarrow> delete_transactions (doc s')"
  by (auto simp: delete_company_transactions_def split: if_splits sum.splits)

lemma delete_company_transactions_again:
  "delete_transactions (doc s) \<Longrightarrow> delete_company_transactions e s = Inr s"
  by (simp add: delete_company_transactions_def)

text \<open>
  Claim C2. An entry with no record of the company is marked done at once, with no
  fetch (\<open>delete_entry_no_records\<close>). On the scenario of the spec, one run of the
  stage removes the three invoices of \<^verbatim>\<open>C1\<close>, their comment and their item row, and
  marks the quotations' entry done. The invoices' entry is not marked done: the stage
  sets \<open>delete_transactions\<close> when its loop ends, so the continuation it has enqueued
  does nothing (\<open>delete_company_transactions_again\<close>) and the entry stays as it is.
\<close>

theorem entry_with_records_is_never_done:
  "case delete_company_transactions env0 invoice_state of
     Inl err \<Rightarrow> False
   | Inr s' \<Rightarrow>
       map (\<lambda>t. pluck_str ''name'' (db s' t))
           [''Sales Invoice'', ''Comment'', ''Sales Invoice Item'', ''Quotation'']
         = [[''SI-4''], [''CM-2''], [''r2''], [''QTN-1'']] \<and>
       map done_flag (doctypes (doc s')) = [False, True] \<and>
       delete_transactions (doc s') \<and>
       map (\<lambda>q. snd (snd q)) (queue s') = [''delete_company_transactions''] \<and>
       (case run_doc_method env0 ''delete_company_transactions'' s' of
          Inl err \<Rightarrow> False
        | Inr s'' \<Rightarrow> map done_flag (doctypes (doc s'')) = [False, True])"
  by code_simp

section \<open>The inventory after its initialization\<close>

lemma count_doc_update [simp]:
  "get_number_of_docs_linked_with_specified_company (s\<lparr>doc := (doc s)\<lparr>doctypes := x\<rparr>\<rparr>) p f
     = get_number_of_docs_linked_with_specified_company s p f"
  by (simp add: get_number_of_docs_linked_with_specified_company_def)

lemma foldl_initialize_docfield:
  "foldl (initialize_docfield tables) s dfs =
     s\<lparr>doc := (doc s)\<lparr>doctypes := doctypes (doc s) @
        map (\<lambda>df. \<lparr>doctype_name = fst df, docfield_name = snd df, no_of_docs = 0,
                    done_flag = False\<rparr>)
          (filter (\<lambda>df. fst df \<noteq> self_doctype \<and>
                0 < get_number_of_docs_linked_with_specified_company s (fst df) (snd df) \<and>
                fst df \<notin> set tables) dfs)\<rparr>\<rparr>"
proof (induction dfs rule: rev_induct)
  case Nil
  show ?case by simp
next
  case (snoc df dfs)
  then show ?case
    by (simp add: initialize_docfield_def populate_doctypes_table_def)
qed

lemma company_field_ignored:
  "get_doctypes_with_company_field s ign =
     filter (\<lambda>df. fst df \<notin> set ign) (get_doctypes_with_company_field s [])"
proof -
  have "List.map_filter parent_fieldname
          (filter (matches [a, b, (''parent'', NotIn (map VStr ign))]) rows)
      = filter (\<lambda>df. fst df \<notin> set ign)
          (List.map_filter parent_fieldname
             (filter (matches [a, b, (''parent'', NotIn [])]) rows))" for a b and rows :: "row list"
    by (induction rows)
      (auto simp: matches_def parent_fieldname_def split: option.splits val.splits)
  then show ?thesis
    by (simp add: get_doctypes_with_company_field_def get_all_def)
qed

text \<open>
  Claim C4, as amended. When the inventory-initialization stage runs with its flag
  unset, it appends entries to the inventory of the job, and the types of the entries it
  appends are exactly the types that have a \<^verbatim>\<open>Link\<close> field to \<^verbatim>\<open>Company\<close>, are not in
  the computed ignore list (the job's ignored-types entries and every singleton type),
  are not the job's own type, are not child tables, and have at least one record of the
  company through that field; the entries the inventory held before stay in front of
  them. With the flag set the stage leaves the inventory as it is. The claim leaves out
  the guards of the code (\<open>inventory_not_claimed_counterexample\<close>): the job's own type
  and the child tables never enter the inventory, a stage whose flag is set discovers
  nothing, and the stage does not remove an entry that is already there.
\<close>

theorem inventory_after_initialization:
  assumes "initialize_doctypes_to_be_deleted_table s = Inr s'"
  shows "(\<not> initialize_doctypes_table (doc s) \<longrightarrow>
       (\<exists>new. doctypes (doc s') = doctypes (doc s) @ new \<and>
          set (map doctype_name new) =
            {p. \<exists>f. (p, f) \<in> set (get_doctypes_with_company_field s []) \<and>
               p \<notin> set (get_doctypes_to_be_ignored_list s) \<and>
               p \<noteq> self_doctype \<and>
               p \<notin> set (get_all_child_doctypes s) \<and>
               0 < get_number_of_docs_linked_with_specified_company s p f})) \<and>
     (initialize_doctypes_table (doc s) \<longrightarrow> doctypes (doc s') = doctypes (doc s))"
proof (intro conjI impI)
  assume unset: "\<not> initialize_doctypes_table (doc s)"
  let ?new = "map (\<lambda>df. \<lparr>doctype_name = fst df, docfield_name = snd df, no_of_docs = 0,
                  done_flag = False\<rparr>)
        (filter (\<lambda>df. fst df \<noteq> self_doctype \<and>
              0 < get_number_of_docs_linked_with_specified_company s (fst df) (snd df) \<and>
              fst df \<notin> set (get_all_child_doctypes s))
           (get_doctypes_with_company_field s (get_doctypes_to_be_ignored_list s)))"
  from assms unset have "doctypes (doc s') = doctypes (doc s) @ ?new"
    by (auto simp: initialize_doctypes_to_be_deleted_table_def Let_def foldl_initialize_docfield
        chain_callback_def)
  moreover have "set (map doctype_name ?new) =
      {p. \<exists>f. (p, f) \<in> set (get_doctypes_with_company_field s []) \<and>
         p \<notin> set (get_doctypes_to_be_ignored_list s) \<and>
         p \<noteq> self_doctype \<and>
         p \<notin> set (get_all_child_doctypes s) \<and>
         0 < get_number_of_docs_linked_with_specified_company s p f}"
    by (subst company_field_ignored) (force simp: image_iff)
  ultimately show "\<exists>new. doctypes (doc s') = doctypes (doc s) @ new \<and>
      set (map doctype_name new) =
        {p. \<exists>f. (p, f) \<in> set (get_doctypes_with_company_field s []) \<and>
           p \<notin> set (get_doctypes_to_be_ignored_list s) \<and>
           p \<noteq> self_doctype \<and>
           p \<notin> set (get_all_child_doctypes s) \<and>
           0 < get_number_of_docs_linked_with_specified_company s p f}"
    by blast
next
  assume "initialize_doctypes_table (doc s)"
  with assms show "doctypes (doc s') = doctypes (doc s)"
    by (auto simp: initialize_doctypes_to_be_deleted_table_def chain_callback_def)
qed

theorem inventory_after_initialization_witness:
  "\<not> initialize_doctypes_table (doc catalog_stale_state) \<and>
   (\<exists>s'. initialize_doctypes_to_be_deleted_table catalog_stale_state = Inr s' \<and>
      (\<exists>new. doctypes (doc s') = doctypes (doc catalog_stale_state) @ new \<and>
         set (map doctype_name new) =
           {p. \<exists>f. (p, f) \<in> set (get_doctypes_with_company_field catalog_stale_state []) \<and>
              p \<notin> set (get_doctypes_to_be_ignored_list catalog_stale_state) \<and>
              p \<noteq> self_doctype \<and>
              p \<notin> set (get_all_child_doctypes catalog_stale_state) \<and>
              0 < get_number_of_docs_linked_with_specified_company catalog_stale_state p f})) \<and>
   initialize_doctypes_table (doc catalog_done_state) \<and>
   (\<exists>s'. initialize_doctypes_to_be_deleted_table catalog_done_state = Inr s' \<and>
      doctypes (doc s') = doctypes (doc catalog_done_state))"
proof -
  have a: "\<not> initialize_doctypes_table (doc catalog_stale_state)"
    by (simp add: catalog_stale_state_def catalog_state_def job0_def)
  have b: "initialize_doctypes_table (doc catalog_done_state)"
    by (simp add: catalog_done_state_def)
  obtain s1 where c: "initialize_doctypes_to_be_deleted_table catalog_stale_state = Inr s1"
    by (simp add: initialize_doctypes_to_be_deleted_table_def)
  obtain s2 where d: "initialize_doctypes_to_be_deleted_table catalog_done_state = Inr s2"
    by (simp add: initialize_doctypes_to_be_deleted_table_def)
  from a b c d inventory_after_initialization [OF c] inventory_after_initialization [OF d]
  show ?thesis
    by blast
qed

theorem inventory_not_claimed_counterexample:
  "(case initialize_doctypes_to_be_deleted_table catalog_state of
      Inl err \<Rightarrow> False
    | Inr s' \<Rightarrow>
        map doctype_name (doctypes (doc s')) = [''Sales Invoice''] \<and>
        claimed_inventory catalog_state =
          [''Sales Invoice'', ''Sales Invoice Item'', ''Transaction Deletion Record''] \<and>
        set (map doctype_name (doctypes (doc s'))) \<noteq> set (claimed_inventory catalog_state)) \<and>
   (case initialize_doctypes_to_be_deleted_table catalog_done_state of
      Inl err \<Rightarrow> False
    | Inr s' \<Rightarrow>
        map doctype_name (doctypes (doc s')) = [] \<and>
        claimed_inventory catalog_done_state =
          [''Sales Invoice'', ''Sales Invoice Item'', ''Transaction Deletion Record''] \<and>
        set (map doctype_name (doctypes (doc s'))) \<noteq> set (claimed_inventory catalog_done_state)) \<and>
   (case initialize_doctypes_to_be_deleted_table catalog_stale_state of
      Inl err \<Rightarrow> False
    | Inr s' \<Rightarrow>
        map doctype_name (doctypes (doc s')) = [''Quotation'', ''Sales Invoice''] \<and>
        claimed_inventory catalog_stale_state =
          [''Sales Invoice'', ''Sales Invoice Item'', ''Transaction Deletion Record''] \<and>
        set (map doctype_name (doctypes (doc s'))) \<noteq> set (claimed_inventory catalog_stale_state))"
  by code_simp

section \<open>The status of the job\<close>

lemma map_doctype_name_done:
  "map doctype_name (xs[i := (xs ! i)\<lparr>done_flag := True\<rparr>]) = map doctype_name xs"
proof (cases "i < length xs")
  case True
  then show ?thesis by (simp add: map_update list_update_same_conv)
next
  case False
  then show ?thesis by (simp add: list_update_beyond)
qed

lemma delete_batch_doc: "delete_batch e docfield s = Inr s' \<Longrightarrow> doc s' = doc s"
  unfolding delete_batch_def
  by (cases "reconcile_naming_series e (doctype_name docfield) (delete_references docfield s)")
     (auto simp: chain_callback_def)

lemma delete_entry_cases:
  assumes "delete_entry e i docfield s = Inr s'"
  shows "s' = s \<or> s' = set_done i s \<or> delete_batch e docfield s = Inr s'"
proof (cases "doctype_name docfield \<noteq> self_doctype \<and> \<not> done_flag docfield")
  case False
  with assms show ?thesis by (simp add: delete_entry_def)
next
  case True
  show ?thesis
  proof (cases "0 < get_number_of_docs_linked_with_specified_company s
              (doctype_name docfield) (docfield_name docfield)")
    case True
    with assms \<open>doctype_name docfield \<noteq> self_doctype \<and> \<not> done_flag docfield\<close>
    show ?thesis by (simp add: delete_entry_def)
  next
    case False
    with assms \<open>doctype_name docfield \<noteq> self_doctype \<and> \<not> done_flag docfield\<close>
    show ?thesis by (simp add: delete_entry_def)
  qed
qed

lemma delete_entry_doc:
  assumes "delete_entry e i docfield s = Inr s'"
  shows "(doc s')\<lparr>doctypes := []\<rparr> = (doc s)\<lparr>doctypes := []\<rparr> \<and>
         map doctype_name (doctypes (doc s')) = map doctype_name (doctypes (doc s))"
proof -
  from delete_entry_cases [OF assms]
  consider "s' = s" | "s' = set_done i s" | "delete_batch e docfield s = Inr s'"
    by blast
  then show ?thesis
  proof cases
    case 1
    then show ?thesis by simp
  next
    case 2
    then show ?thesis by (simp add: set_done_def map_doctype_name_done)
  next
    case 3
    then have "doc s' = doc s"
      by (rule delete_batch_doc)
    then show ?thesis by simp
  qed
qed

lemma delete_entries_doc:
  "delete_entries e i es s = Inr s' \<Longrightarrow>
     (doc s')\<lparr>doctypes := []\<rparr> = (doc s)\<lparr>doctypes := []\<rparr> \<and>
     map doctype_name (doctypes (doc s')) = map doctype_name (doctypes (doc s))"
proof (induction es arbitrary: i s)
  case Nil
  then show ?case by simp
next
  case (Cons docfield es)
  then obtain s1 where s1: "delete_entry e i docfield s = Inr s1"
    and rest: "delete_entries e (Suc i) es s1 = Inr s'"
    by (auto split: sum.splits)
  from delete_entry_doc [OF s1] Cons.IH [OF rest] show ?case
    by simp
qed

lemma status_frame:
  "j'\<lparr>doctypes := []\<rparr> = j\<lparr>doctypes := []\<rparr> \<Longrightarrow> status j' = status j"
  by (drule arg_cong [where f = status]) simp

lemma delete_company_transactions_doc:
  assumes "delete_company_transactions e s = Inr s'"
  shows "(doc s')\<lparr>doctypes := [], delete_transactions := True\<rparr>
           = (doc s)\<lparr>doctypes := [], delete_transactions := True\<rparr> \<and>
         map doctype_name (doctypes (doc s')) = map doctype_name (doctypes (doc s))"
proof (cases "delete_transactions (doc s)")
  case True
  with assms show ?thesis by (simp add: delete_company_transactions_def)
next
  case False
  show ?thesis
  proof (cases "delete_entries e 0 (doctypes (doc s)) s")
    case (Inl err)
    with assms False show ?thesis by (simp add: delete_company_transactions_def)
  next
    case (Inr s1)
    with assms False have s': "s' = s1\<lparr>doc := (doc s1)\<lparr>delete_transactions := True\<rparr>\<rparr>"
      by (simp add: delete_company_transactions_def)
    from delete_entries_doc [OF Inr]
    have "(doc s1)\<lparr>doctypes := []\<rparr> = (doc s)\<lparr>doctypes := []\<rparr>"
      and n: "map doctype_name (doctypes (doc s1)) = map doctype_name (doctypes (doc s))"
      by simp_all
    then have "(doc s1)\<lparr>doctypes := []\<rparr>\<lparr>delete_transactions := True\<rparr>
        = (doc s)\<lparr>doctypes := []\<rparr>\<lparr>delete_transactions := True\<rparr>"
      by simp
    with s' n show ?thesis by simp
  qed
qed

















section \<open>The naming series after a deletion\<close>

lemma rsplit1_last:
  assumes "c \<notin> set rest"
  shows "rsplit1 c (pre @ c # rest) = Some (pre, rest)"
proof -
  have r: "rev (pre @ c # rest) = rev rest @ c # rev pre"
    by simp
  have n: "x \<noteq> c" if "x \<in> set (rev rest)" for x
    using that assms by auto
  have "takeWhile (\<lambda>x. x \<noteq> c) (rev rest @ c # rev pre) = rev rest"
    by (subst takeWhile_append2) (simp_all add: n)
  moreover have "dropWhile (\<lambda>x. x \<noteq> c) (rev rest @ c # rev pre) = c # rev pre"
    by (subst dropWhile_append2) (simp_all add: n)
  ultimately show ?thesis
    unfolding rsplit1_def r by (simp add: Let_def)
qed

lemma str_replace_digits:
  assumes "list_ex (\<lambda>c. \<not> is_digit c) old" and "list_all is_digit ds"
  shows "str_replace ds old [] = ds"
  using assms(2)
proof (induction ds)
  case Nil
  with assms(1) show ?case by (subst str_replace.simps) auto
next
  case (Cons c ds)
  from assms(1) obtain x where x: "x \<in> set old" "\<not> is_digit x"
    by (auto simp: list_ex_iff)
  have "take (length old) (c # ds) \<noteq> old"
  proof
    assume "take (length old) (c # ds) = old"
    then have "set old \<subseteq> set (c # ds)"
      by (metis set_take_subset)
    with x Cons.prems show False
      by (auto simp: list_all_iff)
  qed
  moreover from x have "old \<noteq> []" by auto
  ultimately have "str_replace (c # ds) old [] = c # str_replace ds old []"
    by (subst str_replace.simps) simp
  with Cons show ?case by simp
qed

lemma str_replace_prefix:
  assumes "list_ex (\<lambda>c. \<not> is_digit c) pre" and "list_all is_digit ds"
  shows "str_replace (pre @ ds) pre [] = ds"
proof -
  from assms(1) have "pre \<noteq> []" by auto
  then have "str_replace (pre @ ds) pre [] = str_replace ds pre []"
    by (subst str_replace.simps) simp
  with assms show ?thesis by (simp add: str_replace_digits)
qed

lemma str_replace_empty: "str_replace s [] [] = s"
  by (subst str_replace.simps) (induction s, simp_all)

lemma cint_digits:
  "ds \<noteq> [] \<Longrightarrow> list_all is_digit ds \<Longrightarrow> nat_of_digits ds < 2 ^ 53 \<Longrightarrow>
     cint e ds = int (nat_of_digits ds)"
  by (simp add: cint_def float_of_nat_def)

lemma update_naming_series_dot:
  assumes "CHR ''.'' \<notin> set hashes"
  shows "update_naming_series e (pre @ CHR ''.'' # hashes) doctype d =
     Inr (sql_update d ''Series'' [(''name'', Eq (VStr pre))]
            (\<lambda>r. r(''current'' \<mapsto> VInt
               (case sql_max (filter (like (pre @ ''%'')) (pluck_str ''name'' (d doctype))) of
                  None \<Rightarrow> 0
                | Some m \<Rightarrow> if m = [] then 0 else cint e (str_replace m pre [])))))"
  using rsplit1_last [OF assms, of pre]
  by (simp add: update_naming_series_def Let_def)


lemma numeric_suffix_Some:
  assumes "numeric_suffix pre m = Some n"
  shows "m = pre @ drop (length pre) m" "drop (length pre) m \<noteq> []"
    "list_all is_digit (drop (length pre) m)" "n = nat_of_digits (drop (length pre) m)"
proof -
  from assms have a: "take (length pre) m = pre" and b: "drop (length pre) m \<noteq> []"
    and c: "list_all is_digit (drop (length pre) m)"
    and d: "n = nat_of_digits (drop (length pre) m)"
    by (auto simp: numeric_suffix_def split: if_splits)
  from a have "pre @ drop (length pre) m = m"
    by (metis append_take_drop_id)
  then show "m = pre @ drop (length pre) m" by simp
  from b c d show "drop (length pre) m \<noteq> []" "list_all is_digit (drop (length pre) m)"
    "n = nat_of_digits (drop (length pre) m)"
    by simp_all
qed

lemma cint_of_suffix:
  assumes "numeric_suffix pre m = Some n" and "n < 2 ^ 53"
    and "pre = [] \<or> list_ex (\<lambda>c. \<not> is_digit c) pre"
  shows "m \<noteq> []" and "cint e (str_replace m pre []) = int n"
proof -
  let ?ds = "drop (length pre) m"
  note s = numeric_suffix_Some [OF assms(1)]
  from s(1,2) show "m \<noteq> []" by auto
  have "str_replace m pre [] = ?ds"
  proof (cases "pre = []")
    case True
    then show ?thesis by (simp add: str_replace_empty)
  next
    case False
    with assms(3) have "list_ex (\<lambda>c. \<not> is_digit c) pre" by simp
    from str_replace_prefix [OF this s(3)] s(1) show ?thesis by simp
  qed
  with s(2,3,4) assms(2) show "cint e (str_replace m pre []) = int n"
    by (simp add: cint_digits)
qed

text \<open>
  What the reconciler does where the prefix cannot recur in the counter. A type whose
  naming pattern has no \<^verbatim>\<open>#\<close> is left untouched. For a pattern \<open>pre.hashes\<close> with a
  \<^verbatim>\<open>#\<close> (\<open>pre\<close> the text before its last dot), the counter of every \<^verbatim>\<open>Series\<close> row
  named \<open>pre\<close> becomes 0 when no surviving identifier matches \<open>pre%\<close>, and the numeric
  suffix of the greatest surviving identifier that matches, when that identifier is
  \<open>pre\<close> followed by a decimal numeral below \<open>2^53\<close> and \<open>pre\<close> is empty or holds a
  character that is not a digit.
\<close>

lemma reconcile_naming_series_cases:
  "(get_value d ''DocType'' doctype ''autoname'' = Some (VStr ns) \<and> CHR ''#'' \<notin> set ns
      \<longrightarrow> reconcile_naming_series e doctype d = Inr d) \<and>
   (get_value d ''DocType'' doctype ''autoname'' = Some (VStr (pre @ ''.'' @ hashes)) \<and>
    CHR ''#'' \<in> set (pre @ ''.'' @ hashes) \<and> CHR ''.'' \<notin> set hashes \<and>
    filter (like (pre @ ''%'')) (pluck_str ''name'' (d doctype)) = []
      \<longrightarrow> reconcile_naming_series e doctype d =
           Inr (sql_update d ''Series'' [(''name'', Eq (VStr pre))]
                  (\<lambda>r. r(''current'' \<mapsto> VInt 0)))) \<and>
   (get_value d ''DocType'' doctype ''autoname'' = Some (VStr (pre @ ''.'' @ hashes)) \<and>
    CHR ''#'' \<in> set (pre @ ''.'' @ hashes) \<and> CHR ''.'' \<notin> set hashes \<and>
    sql_max (filter (like (pre @ ''%'')) (pluck_str ''name'' (d doctype))) = Some m \<and>
    numeric_suffix pre m = Some n \<and> n < 2 ^ 53 \<and>
    (pre = [] \<or> list_ex (\<lambda>c. \<not> is_digit c) pre)
      \<longrightarrow> reconcile_naming_series e doctype d =
           Inr (sql_update d ''Series'' [(''name'', Eq (VStr pre))]
                  (\<lambda>r. r(''current'' \<mapsto> VInt (int n)))))"
proof (intro conjI impI)
  assume "get_value d ''DocType'' doctype ''autoname'' = Some (VStr ns) \<and> CHR ''#'' \<notin> set ns"
  then show "reconcile_naming_series e doctype d = Inr d"
    by (simp add: reconcile_naming_series_def)
next
  assume a: "get_value d ''DocType'' doctype ''autoname'' = Some (VStr (pre @ ''.'' @ hashes)) \<and>
    CHR ''#'' \<in> set (pre @ ''.'' @ hashes) \<and> CHR ''.'' \<notin> set hashes \<and>
    filter (like (pre @ ''%'')) (pluck_str ''name'' (d doctype)) = []"
  then have "reconcile_naming_series e doctype d
      = update_naming_series e (pre @ ''.'' @ hashes) doctype d"
    by (auto simp: reconcile_naming_series_def)
  with a show "reconcile_naming_series e doctype d =
      Inr (sql_update d ''Series'' [(''name'', Eq (VStr pre))] (\<lambda>r. r(''current'' \<mapsto> VInt 0)))"
    by (simp add: update_naming_series_dot sql_max_def)
next
  assume a: "get_value d ''DocType'' doctype ''autoname'' = Some (VStr (pre @ ''.'' @ hashes)) \<and>
    CHR ''#'' \<in> set (pre @ ''.'' @ hashes) \<and> CHR ''.'' \<notin> set hashes \<and>
    sql_max (filter (like (pre @ ''%'')) (pluck_str ''name'' (d doctype))) = Some m \<and>
    numeric_suffix pre m = Some n \<and> n < 2 ^ 53 \<and>
    (pre = [] \<or> list_ex (\<lambda>c. \<not> is_digit c) pre)"
  then have "reconcile_naming_series e doctype d
      = update_naming_series e (pre @ ''.'' @ hashes) doctype d"
    by (auto simp: reconcile_naming_series_def)
  moreover from a have "m \<noteq> []" "cint e (str_replace m pre []) = int n"
    using cint_of_suffix [of pre m n] by simp_all
  ultimately show "reconcile_naming_series e doctype d =
      Inr (sql_update d ''Series'' [(''name'', Eq (VStr pre))]
             (\<lambda>r. r(''current'' \<mapsto> VInt (int n))))"
    using a by (simp add: update_naming_series_dot)
qed

lemma series_db_facts:
  "get_value series_db ''DocType'' ''Quotation'' ''autoname'' = Some (VStr ''naming_series:'')"
  "get_value series_db ''DocType'' ''Receipt'' ''autoname'' = Some (VStr (''RCP-'' @ ''.'' @ ''#####''))"
  "filter (like (''RCP-'' @ ''%'')) (pluck_str ''name'' (series_db ''Receipt'')) = []"
  "get_value series_db ''DocType'' ''Invoice'' ''autoname'' = Some (VStr (''INV-'' @ ''.'' @ ''#####''))"
  "sql_max (filter (like (''INV-'' @ ''%'')) (pluck_str ''name'' (series_db ''Invoice'')))
     = Some ''INV-00042''"
  "numeric_suffix ''INV-'' ''INV-00042'' = Some 42"
  by code_simp+

text \<open>The scenario of the spec: the pattern \<^verbatim>\<open>INV-.#####\<close> with the greatest surviving
  identifier \<^verbatim>\<open>INV-00042\<close> gives the counter 42, a pattern with no survivor gives 0, and
  a type that is not numbered by a pattern is left as it is.\<close>

lemma series_scenario_of_the_spec:
  "reconcile_naming_series env0 ''Quotation'' series_db = Inr series_db \<and>
   reconcile_naming_series env0 ''Receipt'' series_db =
     Inr (sql_update series_db ''Series'' [(''name'', Eq (VStr ''RCP-''))]
            (\<lambda>r. r(''current'' \<mapsto> VInt 0))) \<and>
   reconcile_naming_series env0 ''Invoice'' series_db =
     Inr (sql_update series_db ''Series'' [(''name'', Eq (VStr ''INV-''))]
            (\<lambda>r. r(''current'' \<mapsto> VInt 42)))"
proof -
  have a: "get_value series_db ''DocType'' ''Quotation'' ''autoname'' = Some (VStr ''naming_series:'')
      \<and> CHR ''#'' \<notin> set ''naming_series:''"
    by (simp add: series_db_facts)
  have b: "get_value series_db ''DocType'' ''Receipt'' ''autoname''
        = Some (VStr (''RCP-'' @ ''.'' @ ''#####'')) \<and>
      CHR ''#'' \<in> set (''RCP-'' @ ''.'' @ ''#####'') \<and> CHR ''.'' \<notin> set ''#####'' \<and>
      filter (like (''RCP-'' @ ''%'')) (pluck_str ''name'' (series_db ''Receipt'')) = []"
    using series_db_facts(2,3) by simp
  have c: "get_value series_db ''DocType'' ''Invoice'' ''autoname''
        = Some (VStr (''INV-'' @ ''.'' @ ''#####'')) \<and>
      CHR ''#'' \<in> set (''INV-'' @ ''.'' @ ''#####'') \<and> CHR ''.'' \<notin> set ''#####'' \<and>
      sql_max (filter (like (''INV-'' @ ''%'')) (pluck_str ''name'' (series_db ''Invoice'')))
        = Some ''INV-00042'' \<and>
      numeric_suffix ''INV-'' ''INV-00042'' = Some 42 \<and> (42::nat) < 2 ^ 53 \<and>
      (''INV-'' = [] \<or> list_ex (\<lambda>c. \<not> is_digit c) ''INV-'')"
    using series_db_facts(4,5,6) by (simp add: is_digit_def)
  from reconcile_naming_series_cases [of series_db "''Quotation''" "''naming_series:''" env0]
    a
  have 1: "reconcile_naming_series env0 ''Quotation'' series_db = Inr series_db"
    by blast
  from reconcile_naming_series_cases
    [of series_db "''Receipt''" _ env0  "''RCP-''" "''#####''"] b
  have 2: "reconcile_naming_series env0 ''Receipt'' series_db =
     Inr (sql_update series_db ''Series'' [(''name'', Eq (VStr ''RCP-''))]
            (\<lambda>r. r(''current'' \<mapsto> VInt 0)))"
    by blast
  from reconcile_naming_series_cases
    [of series_db "''Invoice''" _ env0  "''INV-''" "''#####''" "''INV-00042''" 42] c
  have 3: "reconcile_naming_series env0 ''Invoice'' series_db =
     Inr (sql_update series_db ''Series'' [(''name'', Eq (VStr ''INV-''))]
            (\<lambda>r. r(''current'' \<mapsto> VInt (int 42))))"
    by blast
  from 1 2 3 show ?thesis by simp
qed

text \<open>
  Claim C7 on the code. The journals of \<open>series_db\<close> are numbered by the pattern
  \<^verbatim>\<open>2024.#####\<close>; the greatest surviving identifier is \<^verbatim>\<open>202402024\<close>, the prefix
  \<^verbatim>\<open>2024\<close> followed by the counter \<^verbatim>\<open>02024\<close>. The claim has the reconciler set the
  counter of the prefix to that numeric suffix, 2024. The code takes the counter from
  \<^verbatim>\<open>last[0][0].replace(prefix, "")\<close> (line 280), which removes every occurrence of the
  prefix and not only the leading one: what is left of \<^verbatim>\<open>202402024\<close> is \<^verbatim>\<open>0\<close>, and the
  stored counter becomes 0. The next journal would be numbered \<^verbatim>\<open>202400001\<close>, below the
  surviving ones.
\<close>

theorem counter_lost_when_prefix_recurs:
  "case reconcile_naming_series env0 ''Journal'' series_db of
     Inl err \<Rightarrow> False
   | Inr d' \<Rightarrow>
       get_value series_db ''DocType'' ''Journal'' ''autoname'' = Some (VStr ''2024.#####'') \<and>
       sql_max (filter (like ''2024%'') (pluck_str ''name'' (series_db ''Journal'')))
         = Some ''202402024'' \<and>
       numeric_suffix ''2024'' ''202402024'' = Some 2024 \<and>
       str_replace ''202402024'' ''2024'' [] = ''0'' \<and>
       get_value d' ''Series'' ''2024'' ''current'' = Some (VInt 0)"
proof -
  have au: "get_value series_db ''DocType'' ''Journal'' ''autoname'' = Some (VStr ''2024.#####'')"
    by code_simp
  have mx: "sql_max (filter (like ''2024%'') (pluck_str ''name'' (series_db ''Journal'')))
      = Some ''202402024''"
    by code_simp
  have ns: "numeric_suffix ''2024'' ''202402024'' = Some 2024"
    by code_simp
  have rp: "str_replace ''202402024'' ''2024'' [] = ''0''"
    by code_simp
  have ci: "cint env0 ''0'' = 0"
    by (simp add: cint_def is_digit_def float_of_nat_def nat_of_digits_def digit_value_def)
  have "reconcile_naming_series env0 ''Journal'' series_db
      = update_naming_series env0 (''2024'' @ CHR ''.'' # ''#####'') ''Journal'' series_db"
    using au by (simp add: reconcile_naming_series_def)
  also have "\<dots> = Inr (sql_update series_db ''Series'' [(''name'', Eq (VStr ''2024''))]
        (\<lambda>r. r(''current'' \<mapsto> VInt 0)))"
    using mx rp ci by (subst update_naming_series_dot) simp_all
  finally have rec: "reconcile_naming_series env0 ''Journal'' series_db
      = Inr (sql_update series_db ''Series'' [(''name'', Eq (VStr ''2024''))]
          (\<lambda>r. r(''current'' \<mapsto> VInt 0)))" .
  have gv: "get_value (sql_update series_db ''Series'' [(''name'', Eq (VStr ''2024''))]
        (\<lambda>r. r(''current'' \<mapsto> VInt 0))) ''Series'' ''2024'' ''current'' = Some (VInt 0)"
    by code_simp
  from au mx ns rp gv show ?thesis
    by (simp add: rec)
qed

section \<open>The lead and address cleanup\<close>

lemma delete_lead_addresses_cases:
  assumes "delete_lead_addresses e s = Inr s'"
  shows "(delete_leads_and_addresses (doc s) \<and> s' = chain_callback ''reset_company_values'' s) \<or>
     (\<exists>d. \<not> delete_leads_and_addresses (doc s) \<and>
        lead_cleanup e (db s) (company (doc s)) = Inr d \<and>
        s' = chain_callback ''reset_company_values''
               (s\<lparr>db := d, doc := (doc s)\<lparr>delete_leads_and_addresses := True\<rparr>\<rparr>))"
proof (cases "delete_leads_and_addresses (doc s)")
  case True
  with assms show ?thesis by (simp add: delete_lead_addresses_def)
next
  case False
  show ?thesis
  proof (cases "lead_cleanup e (db s) (company (doc s))")
    case (Inl err)
    with assms False show ?thesis by (simp add: delete_lead_addresses_def)
  next
    case (Inr d)
    with assms False show ?thesis by (simp add: delete_lead_addresses_def)
  qed
qed

lemma lead_statements_frame:
  "t \<noteq> ''Address'' \<Longrightarrow> t \<noteq> ''Dynamic Link'' \<Longrightarrow> t \<noteq> ''Customer'' \<Longrightarrow>
     lead_statements d leads t = d t"
  by (simp add: lead_statements_def Let_def sql_update_apply db_delete_apply)

lemma lead_cleanup_frame:
  assumes "lead_cleanup e d c = Inr d'"
    and "t \<noteq> ''Address''" and "t \<noteq> ''Dynamic Link''" and "t \<noteq> ''Customer''"
  shows "d' t = d t"
proof -
  let ?leads = "map (\<lambda>row. quoted (py_str (row ''name'')))
      (get_all d ''Lead'' [(''company'', Eq (VStr c))])"
  show ?thesis
  proof (cases "?leads = []")
    case True
    with assms(1) show ?thesis by (simp add: lead_cleanup_def)
  next
    case False
    show ?thesis
    proof (cases "read_sql_list Start [] [] (str_join '','' ?leads)")
      case (Literals names)
      with assms(1) False have "d' = lead_statements d (map VStr names)"
        by (simp add: lead_cleanup_def)
      with assms(2-4) show ?thesis by (simp add: lead_statements_frame)
    next
      case Malformed
      with assms(1) False show ?thesis by (simp add: lead_cleanup_def)
    next
      case Unread
      show ?thesis
      proof (cases "unread_sql e (str_join '','' ?leads) d")
        case (Inl err)
        with assms(1) False Unread show ?thesis by (simp add: lead_cleanup_def)
      next
        case (Inr tables)
        obtain addresses links customers where "tables = (addresses, links, customers)"
          by (cases tables) auto
        with assms(1) False Unread Inr
        have "d' = d(''Address'' := addresses, ''Dynamic Link'' := links,
            ''Customer'' := customers)"
          by (simp add: lead_cleanup_def)
        with assms(2-4) show ?thesis by simp
      qed
    qed
  qed
qed

text \<open>
  When every lead of the company has a name the database reads as written, the stage
  does on the store \<open>lead_db\<close> what the scenario of the spec says: the address
  \<^verbatim>\<open>A1\<close>, linked to the lead \<^verbatim>\<open>L1\<close> and to a customer, is kept, its lead link is
  removed and its customer link stays; the address \<^verbatim>\<open>A2\<close>, linked to the lead only, is
  deleted with its link; the customer that came from \<^verbatim>\<open>L1\<close> has no lead any more.
\<close>

lemma plain_lead_name_is_cleaned:
  "case delete_lead_addresses env0 lead_state of
     Inl err \<Rightarrow> False
   | Inr s' \<Rightarrow>
       pluck ''name'' (db s' ''Address'') = [VStr ''A1''] \<and>
       map (\<lambda>r. (r ''parent'', r ''link_doctype'', r ''link_name'')) (db s' ''Dynamic Link'') =
         [(Some (VStr ''A1''), Some (VStr ''Customer''), Some (VStr ''CU9''))] \<and>
       map (\<lambda>r. (r ''name'', r ''lead_name'')) (db s' ''Customer'') =
         [(Some (VStr ''CU1''), None), (Some (VStr ''CU9''), Some (VStr ''L2''))] \<and>
       delete_leads_and_addresses (doc s') \<and>
       queue s' = [(self_doctype, ''TDR-0001'', ''reset_company_values'')]"
  by code_simp

text \<open>
  Claim C9 on the code. The store \<open>quote_lead_db\<close> is \<open>lead_db\<close> with the lead of the
  company named \<^verbatim>\<open>L'1\<close>. The address \<^verbatim>\<open>A1\<close> is linked to that lead and to a customer,
  the address \<^verbatim>\<open>A2\<close> to that lead only. The claim has the stage remove the lead link of
  \<^verbatim>\<open>A1\<close>, delete \<^verbatim>\<open>A2\<close> and clear the lead of the customer \<^verbatim>\<open>CU1\<close>. The code pastes
  the name between quotes as it is (line 123), the first statement reads
  \<^verbatim>\<open>link_name in ('L'1')\<close>, and the stage raises: nothing is removed, the flag stays
  unset and no continuation is enqueued. The address names of the same function are
  escaped (\<^verbatim>\<open>frappe.db.escape\<close>, line 134); the lead names are not.
\<close>

theorem quoted_lead_name_stops_cleanup:
  "delete_lead_addresses e quote_lead_state = Inl ProgrammingError \<and>
   operate_all e [RunDocMethod ''delete_lead_addresses''] quote_lead_state = quote_lead_state \<and>
   pluck ''name'' (db quote_lead_state ''Address'') = [VStr ''A1'', VStr ''A2''] \<and>
   map (\<lambda>r. (r ''parent'', r ''link_doctype'', r ''link_name''))
       (db quote_lead_state ''Dynamic Link'') =
     [(Some (VStr ''A1''), Some (VStr ''Lead''), Some (VStr lead_quote)),
      (Some (VStr ''A1''), Some (VStr ''Customer''), Some (VStr ''CU9'')),
      (Some (VStr ''A2''), Some (VStr ''Lead''), Some (VStr lead_quote))] \<and>
   map (\<lambda>r. (r ''name'', r ''lead_name'')) (db quote_lead_state ''Customer'') =
     [(Some (VStr ''CU1''), Some (VStr lead_quote)), (Some (VStr ''CU9''), Some (VStr ''L2''))] \<and>
   \<not> delete_leads_and_addresses (doc quote_lead_state)"
proof -
  have "case delete_lead_addresses e quote_lead_state of
      Inl err \<Rightarrow> err = ProgrammingError | Inr s' \<Rightarrow> False"
    by code_simp
  then have run: "delete_lead_addresses e quote_lead_state = Inl ProgrammingError"
    by (cases "delete_lead_addresses e quote_lead_state") simp_all
  then have "operate_all e [RunDocMethod ''delete_lead_addresses''] quote_lead_state
      = quote_lead_state"
    by (simp add: operate_all_def run_doc_method_def)
  moreover have "pluck ''name'' (db quote_lead_state ''Address'') = [VStr ''A1'', VStr ''A2'']"
    by code_simp
  moreover have "map (\<lambda>r. (r ''parent'', r ''link_doctype'', r ''link_name''))
       (db quote_lead_state ''Dynamic Link'') =
     [(Some (VStr ''A1''), Some (VStr ''Lead''), Some (VStr lead_quote)),
      (Some (VStr ''A1''), Some (VStr ''Customer''), Some (VStr ''CU9'')),
      (Some (VStr ''A2''), Some (VStr ''Lead''), Some (VStr lead_quote))]"
    by code_simp
  moreover have "map (\<lambda>r. (r ''name'', r ''lead_name'')) (db quote_lead_state ''Customer'') =
     [(Some (VStr ''CU1''), Some (VStr lead_quote)), (Some (VStr ''CU9''), Some (VStr ''L2''))]"
    by code_simp
  moreover have "\<not> delete_leads_and_addresses (doc quote_lead_state)"
    by code_simp
  ultimately show ?thesis
    using run by simp
qed

text \<open>
  A second input on which the stage keeps what the claim has it delete. On
  \<open>shared_name_db\<close> the address \<^verbatim>\<open>A2\<close> is linked to the lead \<^verbatim>\<open>L1\<close> only, and a contact
  that is also named \<^verbatim>\<open>A2\<close> is linked to a customer. The subquery of the address deletion
  (lines 138 to 140) joins the \<^verbatim>\<open>Dynamic Link\<close> rows on \<^verbatim>\<open>parent\<close> alone, so the
  contact's row counts as a second link type of the address: the address \<^verbatim>\<open>A2\<close> is
  kept, while its lead link is removed by the statement that does test
  \<^verbatim>\<open>parenttype='Address'\<close> (lines 146 and 147).
\<close>

lemma address_kept_for_a_contact_of_its_name:
  "case delete_lead_addresses env0 shared_name_state of
     Inl err \<Rightarrow> False
   | Inr s' \<Rightarrow>
       pluck ''name'' (db s' ''Address'') = [VStr ''A1'', VStr ''A2''] \<and>
       map (\<lambda>r. (r ''parent'', r ''parenttype'', r ''link_doctype''))
           (db s' ''Dynamic Link'') =
         [(Some (VStr ''A1''), Some (VStr ''Address''), Some (VStr ''Customer'')),
          (Some (VStr ''A2''), Some (VStr ''Contact''), Some (VStr ''Customer''))]"
  by code_simp

section \<open>Singleton types\<close>

lemma get_all_cong: "d t = d' t \<Longrightarrow> get_all d t fs = get_all d' t fs"
  by (simp add: get_all_def)

lemma get_all_subset:
  "set (d t) \<subseteq> set (d' t) \<Longrightarrow> set (get_all d t fs) \<subseteq> set (get_all d' t fs)"
  by (auto simp: get_all_def)

lemma singles_mono:
  "set (d ''DocType'') \<subseteq> set (d' ''DocType'') \<Longrightarrow> set (singles d) \<subseteq> set (singles d')"
  unfolding singles_def by (intro set_pluck_str_mono get_all_subset)

lemma table_options_mono:
  "set (d ''DocField'') \<subseteq> set (d' ''DocField'') \<Longrightarrow>
   set (pluck_str ''options'' (get_all d ''DocField'' [(''fieldtype'', Eq (VStr ''Table''))]))
     \<subseteq> set (pluck_str ''options''
           (get_all d' ''DocField'' [(''fieldtype'', Eq (VStr ''Table''))]))"
  by (intro set_pluck_str_mono get_all_subset)

lemma child_tables_subset:
  "set (pluck_str ''options''
          (get_all d ''DocField'' [(''fieldtype'', Eq (VStr ''Table'')), (''parent'', p)]))
     \<subseteq> set (pluck_str ''options''
           (get_all d ''DocField'' [(''fieldtype'', Eq (VStr ''Table''))]))"
  by (intro set_pluck_str_mono) (auto simp: get_all_def matches_def)

lemma delete_references_frame:
  assumes "t \<noteq> ''Version''" "t \<noteq> ''Communication''" "t \<noteq> ''Comment''" "t \<noteq> ''File''"
    and "t \<noteq> doctype_name docfield"
    and "t \<notin> set (pluck_str ''options''
           (get_all (db s) ''DocField'' [(''fieldtype'', Eq (VStr ''Table''))]))"
  shows "delete_references docfield s t = db s t"
proof -
  define names where "names = reference_doc_names s docfield"
  define d1 where "d1 = delete_version_log (doctype_name docfield) names (db s)"
  define d2 where "d2 = delete_communications (doctype_name docfield) names d1"
  define d3 where "d3 = delete_comments (doctype_name docfield) names d2"
  define d4 where "d4 = unlink_attachments (doctype_name docfield) names d3"
  define d5 where "d5 = delete_child_tables (doctype_name docfield) names d4"
  have eq: "delete_references docfield s =
      delete_docs_linked_with_specified_company (company (doc s))
        (doctype_name docfield) (docfield_name docfield) d5"
    by (simp add: delete_references_def Let_def names_def d1_def d2_def d3_def d4_def d5_def)
  have 1: "d1 u = db s u" if "u \<noteq> ''Version''" for u
    using that by (simp add: d1_def delete_version_log_apply)
  have 2: "d2 u = d1 u" if "u \<noteq> ''Communication''" for u
    using that by (simp add: d2_def delete_communications_eq delete_doc_apply)
  have 3: "d3 u = d2 u" if "u \<noteq> ''Comment''" for u
    using that by (simp add: d3_def delete_comments_eq delete_doc_apply)
  have 4: "d4 u = d3 u" if "u \<noteq> ''File''" for u
    using that by (simp add: d4_def unlink_attachments_frame)
  have "d4 ''DocField'' = db s ''DocField''"
    by (simp add: 1 2 3 4)
  then have "get_all d4 ''DocField''
        [(''fieldtype'', Eq (VStr ''Table'')), (''parent'', Eq (VStr (doctype_name docfield)))]
      = get_all (db s) ''DocField''
        [(''fieldtype'', Eq (VStr ''Table'')), (''parent'', Eq (VStr (doctype_name docfield)))]"
    by (rule get_all_cong)
  with assms(6) child_tables_subset [of "db s" "Eq (VStr (doctype_name docfield))"]
  have "t \<notin> set (pluck_str ''options'' (get_all d4 ''DocField''
        [(''fieldtype'', Eq (VStr ''Table'')), (''parent'', Eq (VStr (doctype_name docfield)))]))"
    by auto
  then have 5: "d5 t = d4 t"
    by (simp add: d5_def delete_child_tables_apply)
  from assms(5) have "delete_references docfield s t = d5 t"
    by (simp add: eq delete_docs_linked_apply)
  with 5 assms(1-4) show ?thesis
    by (simp add: 1 2 3 4)
qed

lemma delete_batch_db:
  assumes "delete_batch e docfield s = Inr s'"
  shows "reconcile_naming_series e (doctype_name docfield) (delete_references docfield s)
           = Inr (db s')"
proof (cases "reconcile_naming_series e (doctype_name docfield) (delete_references docfield s)")
  case (Inl err)
  with assms show ?thesis by (simp add: delete_batch_def)
next
  case (Inr d)
  with assms have "s' = chain_callback ''delete_company_transactions'' (s\<lparr>db := d\<rparr>)"
    by (simp add: delete_batch_def)
  then have "db s' = d" by (simp add: chain_callback_def)
  with Inr show ?thesis by simp
qed

lemma delete_entry_subset:
  assumes "delete_entry e i docfield s = Inr s'" and "t \<noteq> ''File''" and "t \<noteq> ''Series''"
  shows "set (db s' t) \<subseteq> set (db s t)"
proof -
  from delete_entry_cases [OF assms(1)]
  consider "s' = s" | "s' = set_done i s" | "delete_batch e docfield s = Inr s'"
    by blast
  then show ?thesis
  proof cases
    case 1
    then show ?thesis by simp
  next
    case 2
    then show ?thesis by (simp add: set_done_def)
  next
    case 3
    from reconcile_naming_series_frame [OF delete_batch_db [OF 3] assms(3)]
      delete_references_subset [OF assms(2), of docfield s]
    show ?thesis by simp
  qed
qed

lemma delete_entry_frame:
  assumes "delete_entry e i docfield s = Inr s'"
    and "t \<noteq> ''Version''" "t \<noteq> ''Communication''" "t \<noteq> ''Comment''" "t \<noteq> ''File''"
    and "t \<noteq> ''Series''"
    and "t \<noteq> doctype_name docfield"
    and "t \<notin> set (pluck_str ''options''
           (get_all (db s) ''DocField'' [(''fieldtype'', Eq (VStr ''Table''))]))"
  shows "db s' t = db s t"
proof -
  from delete_entry_cases [OF assms(1)]
  consider "s' = s" | "s' = set_done i s" | "delete_batch e docfield s = Inr s'"
    by blast
  then show ?thesis
  proof cases
    case 1
    then show ?thesis by simp
  next
    case 2
    then show ?thesis by (simp add: set_done_def)
  next
    case 3
    from reconcile_naming_series_frame [OF delete_batch_db [OF 3] assms(6)]
      delete_references_frame [OF assms(2-5) assms(7,8)]
    show ?thesis by simp
  qed
qed

lemma delete_entries_subset:
  "delete_entries e i es s = Inr s' \<Longrightarrow> t \<noteq> ''File'' \<Longrightarrow> t \<noteq> ''Series'' \<Longrightarrow>
     set (db s' t) \<subseteq> set (db s t)"
proof (induction es arbitrary: i s)
  case Nil
  then show ?case by simp
next
  case (Cons docfield es)
  show ?case
  proof (cases "delete_entry e i docfield s")
    case (Inl err)
    with Cons.prems show ?thesis by simp
  next
    case (Inr s1)
    with Cons.prems have rest: "delete_entries e (Suc i) es s1 = Inr s'"
      by simp
    from Cons.IH [OF rest Cons.prems(2,3)] delete_entry_subset [OF Inr Cons.prems(2,3)]
    show ?thesis by blast
  qed
qed

lemma delete_entries_frame:
  "delete_entries e i es s = Inr s' \<Longrightarrow>
   t \<noteq> ''Version'' \<Longrightarrow> t \<noteq> ''Communication'' \<Longrightarrow> t \<noteq> ''Comment'' \<Longrightarrow> t \<noteq> ''File'' \<Longrightarrow>
   t \<noteq> ''Series'' \<Longrightarrow> t \<notin> set (map doctype_name es) \<Longrightarrow>
   t \<notin> set (pluck_str ''options''
           (get_all (db s) ''DocField'' [(''fieldtype'', Eq (VStr ''Table''))])) \<Longrightarrow>
   db s' t = db s t"
proof (induction es arbitrary: i s)
  case Nil
  then show ?case by simp
next
  case (Cons docfield es)
  show ?case
  proof (cases "delete_entry e i docfield s")
    case (Inl err)
    with Cons.prems(1) show ?thesis by simp
  next
    case (Inr s1)
    with Cons.prems(1) have rest: "delete_entries e (Suc i) es s1 = Inr s'"
      by simp
    from Cons.prems(7) have t: "t \<noteq> doctype_name docfield" "t \<notin> set (map doctype_name es)"
      by simp_all
    have "set (db s1 ''DocField'') \<subseteq> set (db s ''DocField'')"
      by (rule delete_entry_subset [OF Inr]) simp_all
    from table_options_mono [of "db s1" "db s", OF this] Cons.prems(8)
    have opts: "t \<notin> set (pluck_str ''options''
           (get_all (db s1) ''DocField'' [(''fieldtype'', Eq (VStr ''Table''))]))"
      by blast
    have "db s1 t = db s t"
      by (rule delete_entry_frame [OF Inr Cons.prems(2-6) t(1) Cons.prems(8)])
    moreover have "db s' t = db s1 t"
      by (rule Cons.IH [OF rest Cons.prems(2-6) t(2) opts])
    ultimately show ?thesis by simp
  qed
qed


lemma delete_bins_frame:
  assumes "delete_bins s = Inr s'"
  shows "doctypes (doc s') = doctypes (doc s)" and "t \<noteq> ''Bin'' \<Longrightarrow> db s' t = db s t"
  using assms by (auto simp: delete_bins_def chain_callback_def db_delete_apply)

lemma delete_lead_addresses_frame:
  assumes "delete_lead_addresses e s = Inr s'"
  shows "doctypes (doc s') = doctypes (doc s)"
    and "t \<noteq> ''Address'' \<Longrightarrow> t \<noteq> ''Dynamic Link'' \<Longrightarrow> t \<noteq> ''Customer'' \<Longrightarrow> db s' t = db s t"
proof -
  from delete_lead_addresses_cases [OF assms] show "doctypes (doc s') = doctypes (doc s)"
    by (auto simp: chain_callback_def)
  show "db s' t = db s t" if "t \<noteq> ''Address''" "t \<noteq> ''Dynamic Link''" "t \<noteq> ''Customer''"
  proof (cases "delete_leads_and_addresses (doc s)")
    case True
    with delete_lead_addresses_cases [OF assms] show ?thesis
      by (auto simp: chain_callback_def)
  next
    case False
    with delete_lead_addresses_cases [OF assms] obtain d where
      d: "lead_cleanup e (db s) (company (doc s)) = Inr d" and "db s' = d"
      by (auto simp: chain_callback_def)
    with lead_cleanup_frame [OF d that] show ?thesis by simp
  qed
qed

lemma reset_company_values_frame:
  assumes "reset_company_values s = Inr s'"
  shows "doctypes (doc s') = doctypes (doc s)" and "t \<noteq> ''Company'' \<Longrightarrow> db s' t = db s t"
  using assms
  by (auto simp: reset_company_values_def chain_callback_def sql_update_apply split: if_splits)

lemma delete_notifications_frame:
  assumes "delete_notifications s = Inr s'"
  shows "doctypes (doc s') = doctypes (doc s)" and "db s' = db s"
  using assms by (auto simp: delete_notifications_def chain_callback_def)

lemma company_field_not_ignored:
  "df \<in> set (get_doctypes_with_company_field s ign) \<Longrightarrow> fst df \<notin> set ign"
  by (subst (asm) company_field_ignored) simp

lemma initialize_frame:
  assumes "initialize_doctypes_to_be_deleted_table s = Inr s'"
  shows "db s' = db s"
    and "x \<in> set (doctypes (doc s')) \<Longrightarrow>
           x \<in> set (doctypes (doc s)) \<or> doctype_name x \<notin> set (singles (db s))"
proof -
  from assms show "db s' = db s"
    by (auto simp: initialize_doctypes_to_be_deleted_table_def chain_callback_def Let_def
        foldl_initialize_docfield)
  assume x: "x \<in> set (doctypes (doc s'))"
  show "x \<in> set (doctypes (doc s)) \<or> doctype_name x \<notin> set (singles (db s))"
  proof (cases "initialize_doctypes_table (doc s)")
    case True
    with assms x show ?thesis
      by (auto simp: initialize_doctypes_to_be_deleted_table_def chain_callback_def)
  next
    case False
    with assms have "doctypes (doc s') = doctypes (doc s) @
        map (\<lambda>df. \<lparr>doctype_name = fst df, docfield_name = snd df, no_of_docs = 0,
                    done_flag = False\<rparr>)
          (filter (\<lambda>df. fst df \<noteq> self_doctype \<and>
                0 < get_number_of_docs_linked_with_specified_company s (fst df) (snd df) \<and>
                fst df \<notin> set (get_all_child_doctypes s))
             (get_doctypes_with_company_field s (get_doctypes_to_be_ignored_list s)))"
      by (auto simp: initialize_doctypes_to_be_deleted_table_def Let_def
          foldl_initialize_docfield chain_callback_def)
    with x consider "x \<in> set (doctypes (doc s))"
      | df where "df \<in> set (get_doctypes_with_company_field s (get_doctypes_to_be_ignored_list s))"
          "doctype_name x = fst df"
      by auto
    then show ?thesis
    proof cases
      case 1
      then show ?thesis by simp
    next
      case 2
      from company_field_not_ignored [OF 2(1)] 2(2) show ?thesis
        by (simp add: get_doctypes_to_be_ignored_list_def)
    qed
  qed
qed

lemma delete_company_transactions_tables:
  assumes "delete_company_transactions e s = Inr s'"
  shows "t \<noteq> ''File'' \<Longrightarrow> t \<noteq> ''Series'' \<Longrightarrow> set (db s' t) \<subseteq> set (db s t)"
    and "t \<noteq> ''Version'' \<Longrightarrow> t \<noteq> ''Communication'' \<Longrightarrow> t \<noteq> ''Comment'' \<Longrightarrow> t \<noteq> ''File'' \<Longrightarrow>
       t \<noteq> ''Series'' \<Longrightarrow> t \<notin> set (map doctype_name (doctypes (doc s))) \<Longrightarrow>
       t \<notin> set (pluck_str ''options''
           (get_all (db s) ''DocField'' [(''fieldtype'', Eq (VStr ''Table''))])) \<Longrightarrow>
       db s' t = db s t"
proof -
  have *: "\<exists>s1. delete_entries e 0 (doctypes (doc s)) s = Inr s1 \<and> db s' = db s1"
    if "\<not> delete_transactions (doc s)"
  proof (cases "delete_entries e 0 (doctypes (doc s)) s")
    case (Inl err)
    with assms that show ?thesis by (simp add: delete_company_transactions_def)
  next
    case (Inr s1)
    with assms that have "s' = s1\<lparr>doc := (doc s1)\<lparr>delete_transactions := True\<rparr>\<rparr>"
      by (simp add: delete_company_transactions_def)
    then have "db s' = db s1" by simp
    with Inr show ?thesis by blast
  qed
  show "set (db s' t) \<subseteq> set (db s t)" if "t \<noteq> ''File''" "t \<noteq> ''Series''"
  proof (cases "delete_transactions (doc s)")
    case True
    with assms show ?thesis by (simp add: delete_company_transactions_def)
  next
    case False
    from * [OF False] obtain s1 where
      s1: "delete_entries e 0 (doctypes (doc s)) s = Inr s1" "db s' = db s1"
      by blast
    from delete_entries_subset [OF s1(1) that] s1(2) show ?thesis by simp
  qed
  show "db s' t = db s t"
    if "t \<noteq> ''Version''" "t \<noteq> ''Communication''" "t \<noteq> ''Comment''" "t \<noteq> ''File''"
       "t \<noteq> ''Series''" "t \<notin> set (map doctype_name (doctypes (doc s)))"
       "t \<notin> set (pluck_str ''options''
           (get_all (db s) ''DocField'' [(''fieldtype'', Eq (VStr ''Table''))]))"
  proof (cases "delete_transactions (doc s)")
    case True
    with assms show ?thesis by (simp add: delete_company_transactions_def)
  next
    case False
    from * [OF False] obtain s1 where
      s1: "delete_entries e 0 (doctypes (doc s)) s = Inr s1" "db s' = db s1"
      by blast
    from delete_entries_frame [OF s1(1) that] s1(2) show ?thesis by simp
  qed
qed

lemma singles_cong: "d ''DocType'' = d' ''DocType'' \<Longrightarrow> singles d = singles d'"
  by (simp add: singles_def get_all_def)

lemma table_options_cong: "d ''DocField'' = d' ''DocField'' \<Longrightarrow> table_options d = table_options d'"
  by (simp add: get_all_def)

lemma initialize_inventory:
  assumes "initialize_doctypes_to_be_deleted_table s = Inr s'"
    and "d \<in> set (singles (db s))" and "d \<notin> set (inventory_types s)"
  shows "d \<notin> set (inventory_types s')"
proof
  assume "d \<in> set (inventory_types s')"
  then obtain x where x: "x \<in> set (doctypes (doc s'))" "doctype_name x = d"
    by auto
  from initialize_frame(2) [OF assms(1) x(1)] x(2) assms(2,3) show False
    by auto
qed

lemma delete_company_transactions_inventory:
  "delete_company_transactions e s = Inr s' \<Longrightarrow> inventory_types s' = inventory_types s"
  using delete_company_transactions_doc by blast

lemma start_deletion_process_steps:
  assumes "start_deletion_process e s = Inr s'"
  obtains s4 s5 where "doctypes (doc s4) = doctypes (doc s)"
    and "\<And>t. t \<notin> set [''Bin'', ''Address'', ''Dynamic Link'', ''Customer'', ''Company'']
            \<Longrightarrow> db s4 t = db s t"
    and "initialize_doctypes_to_be_deleted_table s4 = Inr s5"
    and "delete_company_transactions e s5 = Inr s'"
proof -
  from assms obtain s1 s2 s3 s4 s5 where
    1: "delete_bins s = Inr s1" and 2: "delete_lead_addresses e s1 = Inr s2" and
    3: "reset_company_values s2 = Inr s3" and 4: "delete_notifications s3 = Inr s4" and
    5: "initialize_doctypes_to_be_deleted_table s4 = Inr s5" and
    6: "delete_company_transactions e s5 = Inr s'"
    by (auto simp: start_deletion_process_def and_then_def split: sum.splits)
  have "doctypes (doc s4) = doctypes (doc s)"
    using delete_bins_frame(1) [OF 1] delete_lead_addresses_frame(1) [OF 2]
      reset_company_values_frame(1) [OF 3] delete_notifications_frame(1) [OF 4]
    by simp
  moreover have "db s4 t = db s t"
    if "t \<notin> set [''Bin'', ''Address'', ''Dynamic Link'', ''Customer'', ''Company'']" for t
    using that delete_bins_frame(2) [OF 1, of t] delete_lead_addresses_frame(2) [OF 2, of t]
      reset_company_values_frame(2) [OF 3, of t] delete_notifications_frame(2) [OF 4]
    by simp
  ultimately show thesis
    using 5 6 that by blast
qed

lemma run_doc_method_catalog:
  assumes "run_doc_method e meth s = Inr s'"
  shows "set (db s' ''DocType'') \<subseteq> set (db s ''DocType'')"
proof -
  consider "delete_bins s = Inr s'" | "delete_lead_addresses e s = Inr s'"
    | "reset_company_values s = Inr s'" | "delete_notifications s = Inr s'"
    | "initialize_doctypes_to_be_deleted_table s = Inr s'"
    | "delete_company_transactions e s = Inr s'" | "start_deletion_process e s = Inr s'"
    using assms unfolding run_doc_method_def by (simp split: if_splits)
  then show ?thesis
  proof cases
    case 1
    from delete_bins_frame(2) [OF 1, of "''DocType''"] show ?thesis by simp
  next
    case 2
    from delete_lead_addresses_frame(2) [OF 2, of "''DocType''"] show ?thesis by simp
  next
    case 3
    from reset_company_values_frame(2) [OF 3, of "''DocType''"] show ?thesis by simp
  next
    case 4
    from delete_notifications_frame(2) [OF 4] show ?thesis by simp
  next
    case 5
    from initialize_frame(1) [OF 5] show ?thesis by simp
  next
    case 6
    from delete_company_transactions_tables(1) [OF 6, of "''DocType''"] show ?thesis by simp
  next
    case 7
    from start_deletion_process_steps [OF 7] obtain s4 s5 where
      a: "\<And>t. t \<notin> set [''Bin'', ''Address'', ''Dynamic Link'', ''Customer'', ''Company'']
            \<Longrightarrow> db s4 t = db s t"
      and b: "initialize_doctypes_to_be_deleted_table s4 = Inr s5"
      and c: "delete_company_transactions e s5 = Inr s'"
      by blast
    from a [of "''DocType''"] initialize_frame(1) [OF b]
      delete_company_transactions_tables(1) [OF c, of "''DocType''"]
    show ?thesis by simp
  qed
qed

lemma run_doc_method_inventory:
  assumes "run_doc_method e meth s = Inr s'"
    and "d \<in> set (singles (db s))" and "d \<notin> set (inventory_types s)"
  shows "d \<notin> set (inventory_types s')"
proof -
  consider "delete_bins s = Inr s'" | "delete_lead_addresses e s = Inr s'"
    | "reset_company_values s = Inr s'" | "delete_notifications s = Inr s'"
    | "initialize_doctypes_to_be_deleted_table s = Inr s'"
    | "delete_company_transactions e s = Inr s'" | "start_deletion_process e s = Inr s'"
    using assms(1) unfolding run_doc_method_def by (simp split: if_splits)
  then show ?thesis
  proof cases
    case 1
    from delete_bins_frame(1) [OF 1] assms(3) show ?thesis by simp
  next
    case 2
    from delete_lead_addresses_frame(1) [OF 2] assms(3) show ?thesis by simp
  next
    case 3
    from reset_company_values_frame(1) [OF 3] assms(3) show ?thesis by simp
  next
    case 4
    from delete_notifications_frame(1) [OF 4] assms(3) show ?thesis by simp
  next
    case 5
    from initialize_inventory [OF 5 assms(2,3)] show ?thesis .
  next
    case 6
    from delete_company_transactions_inventory [OF 6] assms(3) show ?thesis by simp
  next
    case 7
    from start_deletion_process_steps [OF 7] obtain s4 s5 where
      i: "doctypes (doc s4) = doctypes (doc s)"
      and a: "\<And>t. t \<notin> set [''Bin'', ''Address'', ''Dynamic Link'', ''Customer'', ''Company'']
            \<Longrightarrow> db s4 t = db s t"
      and b: "initialize_doctypes_to_be_deleted_table s4 = Inr s5"
      and c: "delete_company_transactions e s5 = Inr s'"
      by blast
    from a [of "''DocType''"] have "singles (db s4) = singles (db s)"
      by (intro singles_cong) simp
    with assms(2,3) i have "d \<in> set (singles (db s4))" "d \<notin> set (inventory_types s4)"
      by simp_all
    from initialize_inventory [OF b this] delete_company_transactions_inventory [OF c]
    show ?thesis by simp
  qed
qed

lemma run_doc_method_frame:
  assumes "run_doc_method e meth s = Inr s'"
    and "d \<in> set (singles (db s))" and "d \<notin> set (inventory_types s)"
    and "d \<notin> set pipeline_tables" and "d \<notin> set (table_options (db s))"
  shows "db s' d = db s d"
proof -
  from assms(4) have pre: "d \<noteq> ''Bin''" "d \<noteq> ''Address''" "d \<noteq> ''Dynamic Link''"
    "d \<noteq> ''Customer''" "d \<noteq> ''Company''"
    and art: "d \<noteq> ''Version''" "d \<noteq> ''Communication''" "d \<noteq> ''Comment''" "d \<noteq> ''File''"
      "d \<noteq> ''Series''"
    by simp_all
  consider "delete_bins s = Inr s'" | "delete_lead_addresses e s = Inr s'"
    | "reset_company_values s = Inr s'" | "delete_notifications s = Inr s'"
    | "initialize_doctypes_to_be_deleted_table s = Inr s'"
    | "delete_company_transactions e s = Inr s'" | "start_deletion_process e s = Inr s'"
    using assms(1) unfolding run_doc_method_def by (simp split: if_splits)
  then show ?thesis
  proof cases
    case 1
    from delete_bins_frame(2) [OF 1 pre(1)] show ?thesis .
  next
    case 2
    from delete_lead_addresses_frame(2) [OF 2 pre(2,3,4)] show ?thesis .
  next
    case 3
    from reset_company_values_frame(2) [OF 3 pre(5)] show ?thesis .
  next
    case 4
    from delete_notifications_frame(2) [OF 4] show ?thesis by simp
  next
    case 5
    from initialize_frame(1) [OF 5] show ?thesis by simp
  next
    case 6
    from delete_company_transactions_tables(2) [OF 6 art assms(3,5)] show ?thesis .
  next
    case 7
    from start_deletion_process_steps [OF 7] obtain s4 s5 where
      i: "doctypes (doc s4) = doctypes (doc s)"
      and a: "\<And>t. t \<notin> set [''Bin'', ''Address'', ''Dynamic Link'', ''Customer'', ''Company'']
            \<Longrightarrow> db s4 t = db s t"
      and b: "initialize_doctypes_to_be_deleted_table s4 = Inr s5"
      and c: "delete_company_transactions e s5 = Inr s'"
      by blast
    from a [of "''DocType''"] have "singles (db s4) = singles (db s)"
      by (intro singles_cong) simp
    with assms(2,3) i have "d \<in> set (singles (db s4))" "d \<notin> set (inventory_types s4)"
      by simp_all
    from initialize_inventory [OF b this] have inv: "d \<notin> set (inventory_types s5)" .
    from a [of "''DocField''"] have "table_options (db s4) = table_options (db s)"
      by (intro table_options_cong) simp
    with initialize_frame(1) [OF b] assms(5) have opts: "d \<notin> set (table_options (db s5))"
      by simp
    from delete_company_transactions_tables(2) [OF c art inv opts]
      initialize_frame(1) [OF b] a [of d] pre
    show ?thesis by simp
  qed
qed

lemma operate_hook:
  assumes "operate e op s = Inr s'" and "\<And>meth. op \<noteq> RunDocMethod meth"
  shows "db s' = db s" and "doctypes (doc s') = doctypes (doc s)"
proof -
  have "db s' = db s \<and> doctypes (doc s') = doctypes (doc s)"
  proof (cases op)
    case Validate
    with assms(1) show ?thesis by (auto split: sum.splits)
  next
    case BeforeSubmit
    with assms(1) show ?thesis
      by (auto simp: before_submit_def populate_doctypes_to_be_ignored_table_def)
  next
    case BeforeSave
    with assms(1) show ?thesis by (auto simp: before_save_def reset_task_flags_def)
  next
    case OnSubmit
    with assms(1) show ?thesis by (auto simp: on_submit_def)
  next
    case OnCancel
    with assms(1) show ?thesis by (auto simp: on_cancel_def)
  next
    case (RunDocMethod meth)
    with assms(2) [of meth] show ?thesis by simp
  qed
  then show "db s' = db s" and "doctypes (doc s') = doctypes (doc s)"
    by simp_all
qed

lemma operate_singles:
  assumes "operate e op s = Inr s'"
  shows "set (singles (db s')) \<subseteq> set (singles (db s))"
proof (cases "\<exists>meth. op = RunDocMethod meth")
  case True
  then obtain meth where "op = RunDocMethod meth" by blast
  with assms have "run_doc_method e meth s = Inr s'" by simp
  from singles_mono [of "db s'" "db s", OF run_doc_method_catalog [OF this]] show ?thesis .
next
  case False
  with operate_hook(1) [OF assms] show ?thesis by simp
qed

lemma operate_inventory:
  assumes "operate e op s = Inr s'"
    and "d \<in> set (singles (db s))" and "d \<notin> set (inventory_types s)"
  shows "d \<notin> set (inventory_types s')"
proof (cases "\<exists>meth. op = RunDocMethod meth")
  case True
  then obtain meth where "op = RunDocMethod meth" by blast
  with assms(1) have "run_doc_method e meth s = Inr s'" by simp
  from run_doc_method_inventory [OF this assms(2,3)] show ?thesis .
next
  case False
  with operate_hook(2) [OF assms(1)] assms(3) show ?thesis by simp
qed

lemma operate_frame:
  assumes "operate e op s = Inr s'"
    and "d \<in> set (singles (db s))" and "d \<notin> set (inventory_types s)"
    and "d \<notin> set pipeline_tables" and "d \<notin> set (table_options (db s))"
  shows "db s' d = db s d"
proof (cases "\<exists>meth. op = RunDocMethod meth")
  case True
  then obtain meth where "op = RunDocMethod meth" by blast
  with assms(1) have "run_doc_method e meth s = Inr s'" by simp
  from run_doc_method_frame [OF this assms(2-5)] show ?thesis .
next
  case False
  with operate_hook(1) [OF assms(1)] show ?thesis by simp
qed

lemma operate_no_singleton:
  assumes "operate e op s = Inr s'"
    and "list_all (\<lambda>x. doctype_name x \<notin> set (singles (db s))) (doctypes (doc s))"
  shows "list_all (\<lambda>x. doctype_name x \<notin> set (singles (db s'))) (doctypes (doc s'))"
  unfolding list_all_iff
proof
  fix x
  assume x: "x \<in> set (doctypes (doc s'))"
  show "doctype_name x \<notin> set (singles (db s'))"
  proof
    assume "doctype_name x \<in> set (singles (db s'))"
    with operate_singles [OF assms(1)] have d: "doctype_name x \<in> set (singles (db s))"
      by blast
    with assms(2) have "doctype_name x \<notin> set (inventory_types s)"
      by (auto simp: list_all_iff)
    from operate_inventory [OF assms(1) d this] x show False
      by auto
  qed
qed

lemma operate_all_no_singleton:
  "list_all (\<lambda>x. doctype_name x \<notin> set (singles (db s))) (doctypes (doc s)) \<Longrightarrow>
   list_all (\<lambda>x. doctype_name x \<notin> set (singles (db (operate_all e ops s))))
     (doctypes (doc (operate_all e ops s)))"
proof (induction ops rule: rev_induct)
  case Nil
  then show ?case by (simp add: operate_all_def)
next
  case (snoc op ops)
  show ?case
  proof (cases "operate e op (operate_all e ops s)")
    case (Inl err)
    then have "operate_all e (ops @ [op]) s = operate_all e ops s"
      by (simp add: operate_all_def)
    with snoc show ?thesis by simp
  next
    case (Inr s')
    then have "operate_all e (ops @ [op]) s = s'"
      by (simp add: operate_all_def)
    with operate_no_singleton [OF Inr snoc.IH [OF snoc.prems]] show ?thesis by simp
  qed
qed

text \<open>
  Claim C10. The ignore list computed by \<open>get_doctypes_to_be_ignored_list\<close> holds every
  singleton type and the job's stored ignored-types entries, and nothing else. If no
  type of the inventory is a singleton, this is still so after any sequence of
  operations. No operation adds a singleton type to the inventory. The records of a
  singleton type that is not in the inventory are left as they are by every operation,
  for a type that is neither a table a stage addresses by name nor a child table of the
  schema.
\<close>

theorem singleton_types_stay_out:
  "set (get_doctypes_to_be_ignored_list s) =
     set (singles (db s)) \<union> set (map doctype_name (doctypes_to_be_ignored (doc s))) \<and>
   (list_all (\<lambda>x. doctype_name x \<notin> set (singles (db s))) (doctypes (doc s)) \<longrightarrow>
      list_all (\<lambda>x. doctype_name x \<notin> set (singles (db (operate_all e ops s))))
        (doctypes (doc (operate_all e ops s)))) \<and>
   (operate e op s = Inr s' \<and> d \<in> set (singles (db s)) \<and> d \<notin> set (inventory_types s)
      \<longrightarrow> d \<notin> set (inventory_types s')) \<and>
   (operate e op s = Inr s' \<and> d \<in> set (singles (db s)) \<and> d \<notin> set (inventory_types s) \<and>
    d \<notin> set pipeline_tables \<and> d \<notin> set (table_options (db s))
      \<longrightarrow> db s' d = db s d)"
  using operate_all_no_singleton [of s e ops] operate_inventory [of e op s s' d]
    operate_frame [of e op s s' d]
  by (simp add: get_doctypes_to_be_ignored_list_def)


lemma catalog_ready_facts:
  "''Global Defaults'' \<in> set (singles (db catalog_ready_state))"
  "''Global Defaults'' \<notin> set (inventory_types catalog_ready_state)"
  "''Global Defaults'' \<notin> set (table_options (db catalog_ready_state))"
  "case operate env0 (RunDocMethod ''delete_company_transactions'') catalog_ready_state of
     Inl err \<Rightarrow> False | Inr s' \<Rightarrow> True"
  by code_simp+

theorem singleton_types_stay_out_witness:
  "''Global Defaults'' \<in> set (singles (db catalog_ready_state)) \<and>
   list_all (\<lambda>x. doctype_name x \<notin> set (singles (db (operate_all env0
        [RunDocMethod ''initialize_doctypes_to_be_deleted_table'',
         RunDocMethod ''delete_company_transactions''] catalog_state))))
     (doctypes (doc (operate_all env0
        [RunDocMethod ''initialize_doctypes_to_be_deleted_table'',
         RunDocMethod ''delete_company_transactions''] catalog_state))) \<and>
   (\<exists>s'. operate env0 (RunDocMethod ''delete_company_transactions'') catalog_ready_state = Inr s' \<and>
      ''Global Defaults'' \<notin> set (inventory_types s') \<and>
      db s' ''Global Defaults'' = db catalog_ready_state ''Global Defaults'')"
proof -
  have start: "list_all (\<lambda>x. doctype_name x \<notin> set (singles (db catalog_state)))
      (doctypes (doc catalog_state))"
    by (simp add: catalog_state_def job0_def)
  have tables: "''Global Defaults'' \<notin> set pipeline_tables"
    by simp
  obtain s' where run:
    "operate env0 (RunDocMethod ''delete_company_transactions'') catalog_ready_state = Inr s'"
    using catalog_ready_facts(4)
    by (cases "operate env0 (RunDocMethod ''delete_company_transactions'') catalog_ready_state")
      simp_all
  from singleton_types_stay_out [of catalog_state env0
      "[RunDocMethod ''initialize_doctypes_to_be_deleted_table'',
        RunDocMethod ''delete_company_transactions'']"] start
  have a: "list_all (\<lambda>x. doctype_name x \<notin> set (singles (db (operate_all env0
        [RunDocMethod ''initialize_doctypes_to_be_deleted_table'',
         RunDocMethod ''delete_company_transactions''] catalog_state))))
     (doctypes (doc (operate_all env0
        [RunDocMethod ''initialize_doctypes_to_be_deleted_table'',
         RunDocMethod ''delete_company_transactions''] catalog_state)))"
    by blast
  from singleton_types_stay_out [of catalog_ready_state env0 _
      "RunDocMethod ''delete_company_transactions''" s' "''Global Defaults''"]
    run catalog_ready_facts(1,2,3) tables
  have b: "''Global Defaults'' \<notin> set (inventory_types s') \<and>
      db s' ''Global Defaults'' = db catalog_ready_state ''Global Defaults''"
    by blast
  from a b run catalog_ready_facts(1) show ?thesis
    by blast
qed

end
